theory Spec2Isabelle
  imports Main "HOL-Library.List_Lexorder" "HOL-Library.Char_ord"
begin

section \<open>Types and constants of the IR\<close>

text \<open>
  Modelled from the spec: the package \<^verbatim>\<open>ir/types\<close> lies outside the files embedded here.
  The variants are those of the data model (void, label, token, metadata, integer,
  float, pointer, vector, array, struct, function). \<^verbatim>\<open>*types.PointerType\<close> is a type of
  its own, since \<^verbatim>\<open>Alias.Typ\<close> can hold nothing else; \<^verbatim>\<open>ElemType\<close> is the field read by
  \<^verbatim>\<open>Alias.Def\<close>. \<^verbatim>\<open>t.Equal(types.Void)\<close> is equality with \<open>VoidType\<close>.
\<close>

datatype Type =
    VoidType
  | LabelType
  | TokenType
  | MetadataType
  | IntType nat
  | FloatType string
  | Pointer PointerType
  | VectorType nat Type
  | ArrayType nat Type
  | StructType string "Type list"
  | FuncType Type "Type list"
and PointerType =
    PointerType (ElemType: Type) (AddrSpace: nat)

text \<open>The type assertion \<^verbatim>\<open>t.(*types.PointerType)\<close>: the pointer type and \<^verbatim>\<open>ok\<close>.\<close>

fun asPointerType :: "Type \<Rightarrow> PointerType option" where
  "asPointerType (Pointer typ) = Some typ"
| "asPointerType _ = None"

text \<open>
  Modelled from the spec: \<^verbatim>\<open>constant.Constant\<close> is an interface declared outside the
  files embedded here, which call its \<^verbatim>\<open>Type\<close> method only; a constant is its textual
  form together with its type.
\<close>

datatype Constant = Constant string Type

fun Constant_Type :: "Constant \<Rightarrow> Type" where
  "Constant_Type (Constant s t) = t"

subsection \<open>Errors and panics\<close>

text \<open>
  \<^verbatim>\<open>errors.Errorf("invalid local ID in function %q, expected %s, got %s", ...)\<close> is
  \<open>BadLocalID\<close> with the function name, the expected and the actual ID (each without its
  sigil); \<^verbatim>\<open>errors.WithStack\<close> wraps an error. \<open>OtherError\<close> stands for the errors
  of the translation phases, which are raised outside the files embedded here.
\<close>

datatype error =
    BadLocalID string string string
  | OtherError string
  | WithStack error

text \<open>Every \<^verbatim>\<open>panic(fmt.Errorf(...))\<close> of the two files, with the values it formats.\<close>

datatype panic =
    InvalidAliaseeType string Type
  | UnableToLocateTypeIdentifier string
  | UnableToLocateComdatName string
  | UnableToLocateGlobalIdentifier string
  | InvalidGlobalType
  | InvalidIndirectSymbolType
  | InvalidFunctionType
  | UnableToLocateAttrGroupID int
  | UnableToLocateMetadataName string
  | UnableToLocateMetadataID int

section \<open>Aliases (ir/alias.go)\<close>

text \<open>
  Modelled from the spec: \<^verbatim>\<open>GlobalIdent\<close>, which \<^verbatim>\<open>Alias\<close> embeds, is declared outside
  the files embedded here; it carries the name, and its \<^verbatim>\<open>SetName\<close> method stores the
  name it is given. In \<^verbatim>\<open>Alias\<close>, \<^verbatim>\<open>Typ\<close> is a pointer that may be nil, hence an option.
  The decoration fields (linkage, visibility, ...) are read by \<^verbatim>\<open>Def\<close> only and live in
  the record's extension.
\<close>

record GlobalIdent =
  GlobalName :: string

record Alias = GlobalIdent +
  Aliasee :: Constant
  Typ :: "PointerType option"

definition Alias_SetName :: "string \<Rightarrow> 'z Alias_scheme \<Rightarrow> 'z Alias_scheme" where
  "Alias_SetName name a = a\<lparr>GlobalName := name\<rparr>"

text \<open>
  \<^verbatim>\<open>Alias.Type\<close> returns the type and, since it caches it in the receiver, the alias
  after the call. The panic is the left summand.
\<close>

definition Alias_Type :: "'z Alias_scheme \<Rightarrow> panic + (Type \<times> 'z Alias_scheme)" where
  "Alias_Type a =
     (case Typ a of
        None \<Rightarrow>
          (case asPointerType (Constant_Type (Aliasee a)) of
             None \<Rightarrow> Inl (InvalidAliaseeType (GlobalName a) (Constant_Type (Aliasee a)))
           | Some typ \<Rightarrow> Inr (Pointer typ, a\<lparr>Typ := Some typ\<rparr>))
      | Some typ \<Rightarrow> Inr (Pointer typ, a))"

definition NewAlias :: "string \<Rightarrow> Constant \<Rightarrow> panic + Alias" where
  "NewAlias name aliasee =
     (let alias = \<lparr>GlobalName = [], Aliasee = aliasee, Typ = None\<rparr>;
          alias = Alias_SetName name alias
      in case Alias_Type alias of
           Inl p \<Rightarrow> Inl p
         | Inr (t, alias) \<Rightarrow> Inr alias)"

section \<open>Local-ID assignment (Function.AssignIDs)\<close>

subsection \<open>Local identifiers\<close>

text \<open>
  \<^verbatim>\<open>strconv.Itoa\<close> of the Go standard library, on the values the counter \<^verbatim>\<open>id\<close> takes:
  it starts at 0 and is only ever incremented, once per entity at most, so that it is a
  natural number far below the bound of Go's \<^verbatim>\<open>int\<close>. The result is the decimal
  numeral without sign or leading zero.
\<close>

definition digits :: string where
  "digits = ''0123456789''"

fun Itoa :: "nat \<Rightarrow> string" where
  "Itoa n = (if n < 10 then [digits ! n] else Itoa (n div 10) @ [digits ! (n mod 10)])"

declare Itoa.simps [simp del]

text \<open>
  Modelled from the spec: the helpers \<^verbatim>\<open>isUnnamed\<close> and \<^verbatim>\<open>isLocalID\<close> are called by
  \<^verbatim>\<open>AssignIDs\<close> and defined outside the files embedded here. An entity is unnamed when its
  name is empty; it carries a numeric name (a local ID) when the name is a non-empty
  string of decimal digits.
\<close>

definition isUnnamed :: "string \<Rightarrow> bool" where
  "isUnnamed name \<longleftrightarrow> name = []"

definition isLocalID :: "string \<Rightarrow> bool" where
  "isLocalID name \<longleftrightarrow> name \<noteq> [] \<and> list_all (\<lambda>r. r \<in> set digits) name"

subsection \<open>Parameters, instructions, terminators, blocks, functions\<close>

text \<open>
  Modelled from the spec: the structs behind \<^verbatim>\<open>*Param\<close>, \<^verbatim>\<open>*BasicBlock\<close>,
  \<^verbatim>\<open>Instruction\<close> and \<^verbatim>\<open>Terminator\<close> are declared outside the files embedded here. A
  parameter is its name and type; a block is its name, its instructions and its
  terminator. \<^verbatim>\<open>AssignIDs\<close> and \<^verbatim>\<open>isVoidValue\<close> use of an instruction the dynamic type
  (\<^verbatim>\<open>*InstCall\<close>, \<^verbatim>\<open>*TermInvoke\<close>, or another one), whether that type implements
  \<^verbatim>\<open>value.Named\<close>, and then \<^verbatim>\<open>Name\<close>, \<^verbatim>\<open>SetName\<close> and \<^verbatim>\<open>Type\<close>.
  \<^item> \<open>InstCall name typ\<close> is an \<^verbatim>\<open>*InstCall\<close>, \<open>TermInvoke name typ\<close> a \<^verbatim>\<open>*TermInvoke\<close>;
  \<^item> \<open>InstValue opcode name typ\<close> and \<open>TermValue opcode name typ\<close> are the other
    instructions and terminators that implement \<^verbatim>\<open>value.Named\<close> (add, load, ...);
  \<^item> \<open>InstOther opcode\<close> and \<open>TermOther opcode\<close> are those that do not (store, fence,
    ret, br, ...): they carry no name.

  Parameters, blocks and instructions are values here: no object sits at two positions
  of the same function.
\<close>

datatype Param = Param string Type

datatype Instruction =
    InstCall string Type
  | InstValue string string Type
  | InstOther string

datatype Terminator =
    TermInvoke string Type
  | TermValue string string Type
  | TermOther string

record BasicBlock =
  LocalName :: string
  Insts :: "Instruction list"
  Term :: Terminator

text \<open>
  Of the fields of \<^verbatim>\<open>Function\<close>, \<^verbatim>\<open>AssignIDs\<close> reads \<^verbatim>\<open>GlobalName\<close>, \<^verbatim>\<open>Params\<close> and
  \<^verbatim>\<open>Blocks\<close>; the signature, the cached type and the decorations are the record's
  extension, which no function below touches.
\<close>

record Function =
  GlobalName :: string
  Params :: "Param list"
  Blocks :: "BasicBlock list"

text \<open>
  Modelled from the spec: the methods \<^verbatim>\<open>Name\<close> and \<^verbatim>\<open>SetName\<close> of \<^verbatim>\<open>value.Named\<close> are
  defined with the structs, per implementing type. \<^verbatim>\<open>Name\<close> reads the name and
  \<^verbatim>\<open>SetName\<close> stores the name it is given.
\<close>

fun Param_Name :: "Param \<Rightarrow> string" where
  "Param_Name (Param name typ) = name"

fun Param_SetName :: "string \<Rightarrow> Param \<Rightarrow> Param" where
  "Param_SetName name (Param old typ) = Param name typ"

definition Block_Name :: "'z BasicBlock_scheme \<Rightarrow> string" where
  "Block_Name block = LocalName block"

definition Block_SetName :: "string \<Rightarrow> 'z BasicBlock_scheme \<Rightarrow> 'z BasicBlock_scheme" where
  "Block_SetName name block = block\<lparr>LocalName := name\<rparr>"

fun Inst_Name :: "Instruction \<Rightarrow> string" where
  "Inst_Name (InstCall name typ) = name"
| "Inst_Name (InstValue opcode name typ) = name"
| "Inst_Name (InstOther opcode) = []"

fun Inst_SetName :: "string \<Rightarrow> Instruction \<Rightarrow> Instruction" where
  "Inst_SetName name (InstCall old typ) = InstCall name typ"
| "Inst_SetName name (InstValue opcode old typ) = InstValue opcode name typ"
| "Inst_SetName name (InstOther opcode) = InstOther opcode"

fun Term_Name :: "Terminator \<Rightarrow> string" where
  "Term_Name (TermInvoke name typ) = name"
| "Term_Name (TermValue opcode name typ) = name"
| "Term_Name (TermOther opcode) = []"

fun Term_SetName :: "string \<Rightarrow> Terminator \<Rightarrow> Terminator" where
  "Term_SetName name (TermInvoke old typ) = TermInvoke name typ"
| "Term_SetName name (TermValue opcode old typ) = TermValue opcode name typ"
| "Term_SetName name (TermOther opcode) = TermOther opcode"

text \<open>The \<^verbatim>\<open>ok\<close> of the type assertions \<^verbatim>\<open>inst.(value.Named)\<close> and \<^verbatim>\<open>block.Term.(value.Named)\<close>.\<close>

fun Inst_isNamed :: "Instruction \<Rightarrow> bool" where
  "Inst_isNamed (InstOther opcode) = False"
| "Inst_isNamed inst = True"

fun Term_isNamed :: "Terminator \<Rightarrow> bool" where
  "Term_isNamed (TermOther opcode) = False"
| "Term_isNamed term = True"

text \<open>
  \<^verbatim>\<open>isVoidValue\<close>: its argument is a named instruction (left) or a named terminator
  (right); the type switch selects \<^verbatim>\<open>*InstCall\<close> and \<^verbatim>\<open>*TermInvoke\<close>, and every other
  dynamic type falls through to \<^verbatim>\<open>return false\<close>.
\<close>

fun isVoidValue :: "Instruction + Terminator \<Rightarrow> bool" where
  "isVoidValue (Inl (InstCall name typ)) = (typ = VoidType)"
| "isVoidValue (Inr (TermInvoke name typ)) = (typ = VoidType)"
| "isVoidValue n = False"

subsection \<open>The assigner\<close>

text \<open>
  The closure \<^verbatim>\<open>setName\<close>. The interface value \<^verbatim>\<open>n\<close> is the entity together with its
  two methods; the captured counter \<^verbatim>\<open>id\<close> is passed in (as \<open>id0\<close>, \<open>id\<close> being
  HOL's identity function) and returned with the entity; \<open>fn\<close> is
  \<^verbatim>\<open>f.GlobalName\<close>. The map \<^verbatim>\<open>names\<close> of the source is written and never read, and has
  no counterpart here.
\<close>

definition setName ::
  "string \<Rightarrow> ('n \<Rightarrow> string) \<Rightarrow> (string \<Rightarrow> 'n \<Rightarrow> 'n) \<Rightarrow> nat \<Rightarrow> 'n \<Rightarrow> error + ('n \<times> nat)" where
  "setName fn Name SetName id0 n =
     (let got = Name n in
      if isUnnamed got then
        (let name = Itoa id0 in Inr (SetName name n, id0 + 1))
      else if isLocalID got then
        (let want = Itoa id0 in
         if want \<noteq> got then Inl (BadLocalID fn want got)
         else Inr (n, id0 + 1))
      else Inr (n, id0))"

text \<open>
  The loops of \<^verbatim>\<open>AssignIDs\<close>, each returning the entities after the loop and the
  counter, or the error of the first \<^verbatim>\<open>setName\<close> that fails. The names assigned before
  a failure stay assigned in the source; the caller gets the error alone here.
\<close>

fun assignParams :: "string \<Rightarrow> nat \<Rightarrow> Param list \<Rightarrow> error + (Param list \<times> nat)" where
  "assignParams fn id0 [] = Inr ([], id0)"
| "assignParams fn id0 (param # params) =
     (case setName fn Param_Name Param_SetName id0 param of
        Inl err \<Rightarrow> Inl (WithStack err)
      | Inr (param', id1) \<Rightarrow>
          (case assignParams fn id1 params of
             Inl err \<Rightarrow> Inl err
           | Inr (params', id2) \<Rightarrow> Inr (param' # params', id2)))"

fun assignInsts ::
  "string \<Rightarrow> nat \<Rightarrow> Instruction list \<Rightarrow> error + (Instruction list \<times> nat)" where
  "assignInsts fn id0 [] = Inr ([], id0)"
| "assignInsts fn id0 (inst # insts) =
     (if \<not> Inst_isNamed inst \<or> isVoidValue (Inl inst) then
        (case assignInsts fn id0 insts of
           Inl err \<Rightarrow> Inl err
         | Inr (insts', id1) \<Rightarrow> Inr (inst # insts', id1))
      else
        (case setName fn Inst_Name Inst_SetName id0 inst of
           Inl err \<Rightarrow> Inl (WithStack err)
         | Inr (inst', id1) \<Rightarrow>
             (case assignInsts fn id1 insts of
                Inl err \<Rightarrow> Inl err
              | Inr (insts', id2) \<Rightarrow> Inr (inst' # insts', id2))))"

definition assignTerm :: "string \<Rightarrow> nat \<Rightarrow> Terminator \<Rightarrow> error + (Terminator \<times> nat)" where
  "assignTerm fn id0 term =
     (if \<not> Term_isNamed term \<or> isVoidValue (Inr term) then Inr (term, id0)
      else
        (case setName fn Term_Name Term_SetName id0 term of
           Inl err \<Rightarrow> Inl (WithStack err)
         | Inr (term', id1) \<Rightarrow> Inr (term', id1)))"

fun assignBlocks ::
  "string \<Rightarrow> nat \<Rightarrow> BasicBlock list \<Rightarrow> error + (BasicBlock list \<times> nat)" where
  "assignBlocks fn id0 [] = Inr ([], id0)"
| "assignBlocks fn id0 (block # blocks) =
     (case setName fn Block_Name Block_SetName id0 block of
        Inl err \<Rightarrow> Inl (WithStack err)
      | Inr (block1, id1) \<Rightarrow>
          (case assignInsts fn id1 (Insts block1) of
             Inl err \<Rightarrow> Inl err
           | Inr (insts', id2) \<Rightarrow>
               (case assignTerm fn id2 (Term block1) of
                  Inl err \<Rightarrow> Inl err
                | Inr (term', id3) \<Rightarrow>
                    (case assignBlocks fn id3 blocks of
                       Inl err \<Rightarrow> Inl err
                     | Inr (blocks', id4) \<Rightarrow>
                         Inr (block1\<lparr>Insts := insts', Term := term'\<rparr> # blocks', id4)))))"

definition AssignIDs :: "'z Function_scheme \<Rightarrow> error + 'z Function_scheme" where
  "AssignIDs f =
     (if length (Blocks f) = 0 then Inr f
      else
        (case assignParams (GlobalName f) 0 (Params f) of
           Inl err \<Rightarrow> Inl err
         | Inr (params', id1) \<Rightarrow>
             (case assignBlocks (GlobalName f) id1 (Blocks f) of
                Inl err \<Rightarrow> Inl err
              | Inr (blocks', id2) \<Rightarrow> Inr (f\<lparr>Params := params', Blocks := blocks'\<rparr>))))"

subsection \<open>What the assigner numbers\<close>

text \<open>
  The observations the statements about \<^verbatim>\<open>AssignIDs\<close> are written with. An instruction or
  terminator is numbered when the loop reaches \<^verbatim>\<open>setName\<close> for it: it implements
  \<^verbatim>\<open>value.Named\<close> and \<^verbatim>\<open>isVoidValue\<close> is false. \<open>valueNames\<close> lists the names in the
  order of the traversal: parameters, then per block its name, its numbered instructions
  and its numbered terminator. \<open>localIDs\<close> keeps the numeric ones.
\<close>

definition Inst_numbered :: "Instruction \<Rightarrow> bool" where
  "Inst_numbered inst \<longleftrightarrow> Inst_isNamed inst \<and> \<not> isVoidValue (Inl inst)"

definition Term_numbered :: "Terminator \<Rightarrow> bool" where
  "Term_numbered term \<longleftrightarrow> Term_isNamed term \<and> \<not> isVoidValue (Inr term)"

definition blockNames :: "'z BasicBlock_scheme \<Rightarrow> string list" where
  "blockNames block =
     Block_Name block # map Inst_Name (filter Inst_numbered (Insts block))
       @ map Term_Name (filter Term_numbered [Term block])"

definition valueNames :: "'z Function_scheme \<Rightarrow> string list" where
  "valueNames f = map Param_Name (Params f) @ concat (map blockNames (Blocks f))"

definition localIDs :: "'z Function_scheme \<Rightarrow> string list" where
  "localIDs f = filter isLocalID (valueNames f)"

text \<open>
  A stretch of names is packed from \<open>i\<close> to \<open>j\<close> when its numeric names are the decimal
  numerals of \<open>i, i + 1, ..., j - 1\<close> in this order and none of its names is empty.
\<close>

definition packed :: "nat \<Rightarrow> nat \<Rightarrow> string list \<Rightarrow> bool" where
  "packed i j names \<longleftrightarrow>
     filter isLocalID names = map Itoa [i..<j] \<and> i \<le> j
     \<and> list_all (\<lambda>name. \<not> isUnnamed name) names"

text \<open>
  The error a failed run returns: the wrapped \<^verbatim>\<open>errors.Errorf\<close> value of \<^verbatim>\<open>setName\<close>, for a
  numeric name \<open>got\<close> that differs from the expected \<open>want\<close>, in function \<open>fn\<close>.
\<close>

definition bad_local_id :: "string \<Rightarrow> error \<Rightarrow> bool" where
  "bad_local_id fn err \<longleftrightarrow>
     (\<exists>want got. err = WithStack (BadLocalID fn want got) \<and> isLocalID got \<and> want \<noteq> got)"

subsection \<open>The assigner in the words of the spec\<close>

text \<open>
  The local-ID assigner of the spec, on the list of the names the traversal meets: an
  unnamed entity is given the next free decimal ID and the counter is incremented; a
  numeric name must equal the counter, which is then incremented, and is an error
  otherwise; any other name is left alone. The result is the list of the names after the
  assignment together with the counter, or the error. \<^verbatim>\<open>AssignIDs\<close> is compared with it.
\<close>

fun numberNames :: "string \<Rightarrow> nat \<Rightarrow> string list \<Rightarrow> error + (string list \<times> nat)" where
  "numberNames fn k [] = Inr ([], k)"
| "numberNames fn k (name # names) =
     (if isUnnamed name then
        (case numberNames fn (k + 1) names of
           Inl err \<Rightarrow> Inl err
         | Inr (names', k') \<Rightarrow> Inr (Itoa k # names', k'))
      else if isLocalID name then
        (if name = Itoa k then
           (case numberNames fn (k + 1) names of
              Inl err \<Rightarrow> Inl err
            | Inr (names', k') \<Rightarrow> Inr (name # names', k'))
         else Inl (WithStack (BadLocalID fn (Itoa k) name)))
      else
        (case numberNames fn k names of
           Inl err \<Rightarrow> Inl err
         | Inr (names', k') \<Rightarrow> Inr (name # names', k')))"







text \<open>
  Among the instructions that implement \<^verbatim>\<open>value.Named\<close>, LLVM gives a void type to calls
  and invokes only: an instruction of any other kind that carries a name yields a value.
  \<open>Inst_wellTyped\<close> says so of one instruction, \<open>wellTyped\<close> of all the instructions and
  terminators of a function. The source leaves a note to check this
  (\<^verbatim>\<open>TODO: Check if any other value instructions than call may have void type\<close>); the
  structs that would decide it are declared outside the files embedded here, and it is
  a hypothesis wherever it is used.
\<close>

fun Inst_wellTyped :: "Instruction \<Rightarrow> bool" where
  "Inst_wellTyped (InstValue opcode name typ) = (typ \<noteq> VoidType)"
| "Inst_wellTyped inst = True"



section \<open>Translation of a module (asm/translate.go)\<close>

subsection \<open>Top-level entities, the module and the generator\<close>

text \<open>
  Modelled from the spec: the structs of the remaining top-level entities are declared
  outside the files embedded here. The assembler moves them from the tables of the generator
  to the lists of the module and never looks inside, so each is represented by what
  identifies it: its name, or its numeric ID (an \<^verbatim>\<open>int64\<close>, which is only ever compared).
\<close>

datatype ComdatDef = ComdatDef string
datatype Global = Global string
datatype IFunc = IFunc string
datatype AttrGroupDef = AttrGroupDef int
datatype NamedMetadataDef = NamedMetadataDef string
datatype MetadataDef = MetadataDef int
datatype UseListOrder = UseListOrder string
datatype UseListOrderBB = UseListOrderBB string

text \<open>
  The values of the table \<^verbatim>\<open>gen.new.globals\<close> are interface values; the type switches of
  the assembler tell \<^verbatim>\<open>*ir.Global\<close>, \<^verbatim>\<open>*ir.Alias\<close>, \<^verbatim>\<open>*ir.IFunc\<close> and \<^verbatim>\<open>*ir.Function\<close>
  apart, and any other dynamic type ends in a panic.
\<close>

datatype GlobalValue =
    IsGlobal Global
  | IsAlias Alias
  | IsIFunc IFunc
  | IsFunction Function
  | IsOther Constant

text \<open>
  Modelled from the spec: \<^verbatim>\<open>ir.Module\<close> is declared outside the files embedded here; its
  fields are the lists that \<^verbatim>\<open>translate\<close> and \<^verbatim>\<open>addDefsToModule\<close> append to.
\<close>

record Module =
  TypeDefs :: "Type list"
  ComdatDefs :: "ComdatDef list"
  Globals :: "Global list"
  Aliases :: "Alias list"
  IFuncs :: "IFunc list"
  Funcs :: "Function list"
  AttrGroupDefs :: "AttrGroupDef list"
  NamedMetadataDefs :: "NamedMetadataDef list"
  MetadataDefs :: "MetadataDef list"
  UseListOrders :: "UseListOrder list"
  UseListOrderBBs :: "UseListOrderBB list"

text \<open>
  Modelled from the spec: the generator is declared outside the files embedded here.
  Its fields are those that \<^verbatim>\<open>translate\<close> and \<^verbatim>\<open>addDefsToModule\<close> read or write:
  \<open>old_typeDefs\<close> is \<^verbatim>\<open>gen.old.typeDefs\<close>, \<open>new_typeDefs\<close> is \<^verbatim>\<open>gen.new.typeDefs\<close>, and so
  on; \<open>m\<close> is the module under construction. The type \<open>'a\<close> is that of the nodes of the
  AST; the fields used by the other phases only are the record's extension. Names and
  global identifiers are strings, IDs are integers.
\<close>

record 'a generator =
  old_typeDefs :: "string \<rightharpoonup> 'a"
  old_comdatDefs :: "string \<rightharpoonup> 'a"
  old_globalOrder :: "string list"
  old_indirectSymbolDefOrder :: "string list"
  old_funcOrder :: "string list"
  old_attrGroupDefs :: "int \<rightharpoonup> 'a"
  old_namedMetadataDefOrder :: "string list"
  old_metadataDefs :: "int \<rightharpoonup> 'a"
  old_useListOrders :: "'a list"
  old_useListOrderBBs :: "'a list"
  new_typeDefs :: "string \<rightharpoonup> Type"
  new_comdatDefs :: "string \<rightharpoonup> ComdatDef"
  new_globals :: "string \<rightharpoonup> GlobalValue"
  new_attrGroupDefs :: "int \<rightharpoonup> AttrGroupDef"
  new_namedMetadataDefs :: "string \<rightharpoonup> NamedMetadataDef"
  new_metadataDefs :: "int \<rightharpoonup> MetadataDef"
  todo :: "Constant list"
  m :: Module

subsection \<open>Ranging over a map\<close>

text \<open>
  \<^verbatim>\<open>for name := range gen.old.typeDefs\<close> visits every key of the map once, in an order
  that Go leaves unspecified and that changes from run to run. The order of each of the
  four such loops of \<^verbatim>\<open>addDefsToModule\<close> is an input of the model: the slice the loop
  has built when it ends. \<open>is_range\<close> says that a list is a possible order for a map.
\<close>

record iteration =
  range_typeDefs :: "string list"
  range_comdatDefs :: "string list"
  range_attrGroupDefs :: "int list"
  range_metadataDefs :: "int list"

definition is_range :: "('k \<rightharpoonup> 'v) \<Rightarrow> 'k list \<Rightarrow> bool" where
  "is_range tbl ks \<longleftrightarrow> distinct ks \<and> set ks = dom tbl"

definition valid_ranges :: "iteration \<Rightarrow> ('a, 'z) generator_scheme \<Rightarrow> bool" where
  "valid_ranges it gen \<longleftrightarrow>
     is_range (old_typeDefs gen) (range_typeDefs it)
     \<and> is_range (old_comdatDefs gen) (range_comdatDefs it)
     \<and> is_range (old_attrGroupDefs gen) (range_attrGroupDefs it)
     \<and> is_range (old_metadataDefs gen) (range_metadataDefs it)"

subsection \<open>addDefsToModule\<close>

text \<open>
  The loop shared by five of the eight kinds: look every key up in the table of the IR
  side, panic when it is missing, append the definition otherwise. \<open>notFound\<close> builds the
  panic from the key.
\<close>

fun appendDefs :: "('k \<Rightarrow> panic) \<Rightarrow> ('k \<rightharpoonup> 'v) \<Rightarrow> 'k list \<Rightarrow> 'v list \<Rightarrow> panic + 'v list" where
  "appendDefs notFound tbl [] defs = Inr defs"
| "appendDefs notFound tbl (k # ks) defs =
     (case tbl k of
        None \<Rightarrow> Inl (notFound k)
      | Some def \<Rightarrow> appendDefs notFound tbl ks (defs @ [def]))"

text \<open>The loops over the global identifiers, each with its type assertion or switch.\<close>

fun appendGlobals ::
  "(string \<rightharpoonup> GlobalValue) \<Rightarrow> string list \<Rightarrow> Global list \<Rightarrow> panic + Global list" where
  "appendGlobals tbl [] globals = Inr globals"
| "appendGlobals tbl (ident # idents) globals =
     (case tbl ident of
        None \<Rightarrow> Inl (UnableToLocateGlobalIdentifier ident)
      | Some v \<Rightarrow>
          (case v of
             IsGlobal def \<Rightarrow> appendGlobals tbl idents (globals @ [def])
           | _ \<Rightarrow> Inl InvalidGlobalType))"

fun appendIndirectSymbols ::
  "(string \<rightharpoonup> GlobalValue) \<Rightarrow> string list \<Rightarrow> Alias list \<times> IFunc list
     \<Rightarrow> panic + (Alias list \<times> IFunc list)" where
  "appendIndirectSymbols tbl [] (aliases, ifuncs) = Inr (aliases, ifuncs)"
| "appendIndirectSymbols tbl (ident # idents) (aliases, ifuncs) =
     (case tbl ident of
        None \<Rightarrow> Inl (UnableToLocateGlobalIdentifier ident)
      | Some v \<Rightarrow>
          (case v of
             IsAlias v \<Rightarrow> appendIndirectSymbols tbl idents (aliases @ [v], ifuncs)
           | IsIFunc v \<Rightarrow> appendIndirectSymbols tbl idents (aliases, ifuncs @ [v])
           | _ \<Rightarrow> Inl InvalidIndirectSymbolType))"

fun appendFuncs ::
  "(string \<rightharpoonup> GlobalValue) \<Rightarrow> string list \<Rightarrow> Function list \<Rightarrow> panic + Function list" where
  "appendFuncs tbl [] funcs = Inr funcs"
| "appendFuncs tbl (ident # idents) funcs =
     (case tbl ident of
        None \<Rightarrow> Inl (UnableToLocateGlobalIdentifier ident)
      | Some v \<Rightarrow>
          (case v of
             IsFunction def \<Rightarrow> appendFuncs tbl idents (funcs @ [def])
           | _ \<Rightarrow> Inl InvalidFunctionType))"

text \<open>
  \<^verbatim>\<open>addDefsToModule\<close>. \<^verbatim>\<open>sort.Strings\<close> orders strings bytewise and \<^verbatim>\<open>sort.Slice\<close> with
  \<^verbatim>\<open><\<close> orders the IDs; both are \<open>sort\<close>, on the lexicographic order of byte strings and
  on the integers. The first panic ends the function; the writes to \<^verbatim>\<open>gen.m\<close>, which no
  later loop reads, are collected in one update.
\<close>

definition addDefsToModule ::
  "iteration \<Rightarrow> ('a, 'z) generator_scheme \<Rightarrow> panic + ('a, 'z) generator_scheme" where
  "addDefsToModule it gen =
     (let typeNames = sort (range_typeDefs it) in
      case appendDefs UnableToLocateTypeIdentifier (new_typeDefs gen) typeNames
             (TypeDefs (m gen)) of
        Inl p \<Rightarrow> Inl p
      | Inr typeDefs \<Rightarrow>
     (let comdatNames = sort (range_comdatDefs it) in
      case appendDefs UnableToLocateComdatName (new_comdatDefs gen) comdatNames
             (ComdatDefs (m gen)) of
        Inl p \<Rightarrow> Inl p
      | Inr comdatDefs \<Rightarrow>
     (case appendGlobals (new_globals gen) (old_globalOrder gen) (Globals (m gen)) of
        Inl p \<Rightarrow> Inl p
      | Inr globals \<Rightarrow>
     (case appendIndirectSymbols (new_globals gen) (old_indirectSymbolDefOrder gen)
             (Aliases (m gen), IFuncs (m gen)) of
        Inl p \<Rightarrow> Inl p
      | Inr (aliases, ifuncs) \<Rightarrow>
     (case appendFuncs (new_globals gen) (old_funcOrder gen) (Funcs (m gen)) of
        Inl p \<Rightarrow> Inl p
      | Inr funcs \<Rightarrow>
     (let attrGroupIDs = sort (range_attrGroupDefs it) in
      case appendDefs UnableToLocateAttrGroupID (new_attrGroupDefs gen) attrGroupIDs
             (AttrGroupDefs (m gen)) of
        Inl p \<Rightarrow> Inl p
      | Inr attrGroupDefs \<Rightarrow>
     (case appendDefs UnableToLocateMetadataName (new_namedMetadataDefs gen)
             (old_namedMetadataDefOrder gen) (NamedMetadataDefs (m gen)) of
        Inl p \<Rightarrow> Inl p
      | Inr namedMetadataDefs \<Rightarrow>
     (let metadataIDs = sort (range_metadataDefs it) in
      case appendDefs UnableToLocateMetadataID (new_metadataDefs gen) metadataIDs
             (MetadataDefs (m gen)) of
        Inl p \<Rightarrow> Inl p
      | Inr metadataDefs \<Rightarrow>
          Inr (gen\<lparr>m := (m gen)\<lparr>TypeDefs := typeDefs, ComdatDefs := comdatDefs,
                 Globals := globals, Aliases := aliases, IFuncs := ifuncs, Funcs := funcs,
                 AttrGroupDefs := attrGroupDefs, NamedMetadataDefs := namedMetadataDefs,
                 MetadataDefs := metadataDefs\<rparr>\<rparr>)))))))))"

subsection \<open>translate\<close>

text \<open>
  The methods \<^verbatim>\<open>translate\<close> calls for the phases 1 to 7 are defined outside the files
  embedded here. They are parameters: each is a function of the generator it is called on,
  returning the generator after the call or the error. \<^verbatim>\<open>irUseListOrder\<close> and
  \<^verbatim>\<open>irUseListOrderBB\<close> return the translated directive; \<^verbatim>\<open>fixBlockAddressConst\<close> works on
  one constant of \<^verbatim>\<open>gen.todo\<close> and on the entities the generator holds.
\<close>

record ('a, 'z) phases =
  newGenerator :: "('a, 'z) generator_scheme"
  indexTopLevelEntities :: "'a \<Rightarrow> ('a, 'z) generator_scheme \<Rightarrow> error + ('a, 'z) generator_scheme"
  resolveTypeDefs :: "('a, 'z) generator_scheme \<Rightarrow> error + ('a, 'z) generator_scheme"
  translateComdatDefs :: "('a, 'z) generator_scheme \<Rightarrow> error + ('a, 'z) generator_scheme"
  createTopLevelEntities :: "('a, 'z) generator_scheme \<Rightarrow> error + ('a, 'z) generator_scheme"
  translateTopLevelEntities :: "('a, 'z) generator_scheme \<Rightarrow> error + ('a, 'z) generator_scheme"
  irUseListOrder :: "('a, 'z) generator_scheme \<Rightarrow> 'a \<Rightarrow> error + UseListOrder"
  irUseListOrderBB :: "('a, 'z) generator_scheme \<Rightarrow> 'a \<Rightarrow> error + UseListOrderBB"
  fixBlockAddressConst :: "Constant \<Rightarrow> ('a, 'z) generator_scheme \<Rightarrow> error + ('a, 'z) generator_scheme"

text \<open>The loops of the phases 5, 6 and 7.\<close>

fun translateUseListOrders ::
  "('a, 'z) phases \<Rightarrow> 'a list \<Rightarrow> ('a, 'z) generator_scheme \<Rightarrow> error + ('a, 'z) generator_scheme" where
  "translateUseListOrders ph [] gen = Inr gen"
| "translateUseListOrders ph (oldUseListOrder # rest) gen =
     (case irUseListOrder ph gen oldUseListOrder of
        Inl err \<Rightarrow> Inl (WithStack err)
      | Inr useListOrder \<Rightarrow>
          translateUseListOrders ph rest
            (gen\<lparr>m := (m gen)\<lparr>UseListOrders := UseListOrders (m gen) @ [useListOrder]\<rparr>\<rparr>))"

fun translateUseListOrderBBs ::
  "('a, 'z) phases \<Rightarrow> 'a list \<Rightarrow> ('a, 'z) generator_scheme \<Rightarrow> error + ('a, 'z) generator_scheme" where
  "translateUseListOrderBBs ph [] gen = Inr gen"
| "translateUseListOrderBBs ph (oldUseListOrderBB # rest) gen =
     (case irUseListOrderBB ph gen oldUseListOrderBB of
        Inl err \<Rightarrow> Inl (WithStack err)
      | Inr useListOrderBB \<Rightarrow>
          translateUseListOrderBBs ph rest
            (gen\<lparr>m := (m gen)\<lparr>UseListOrderBBs := UseListOrderBBs (m gen) @ [useListOrderBB]\<rparr>\<rparr>))"

fun fixBlockAddressConsts ::
  "('a, 'z) phases \<Rightarrow> Constant list \<Rightarrow> ('a, 'z) generator_scheme \<Rightarrow> error + ('a, 'z) generator_scheme" where
  "fixBlockAddressConsts ph [] gen = Inr gen"
| "fixBlockAddressConsts ph (c # rest) gen =
     (case fixBlockAddressConst ph c gen of
        Inl err \<Rightarrow> Inl (WithStack err)
      | Inr gen \<Rightarrow> fixBlockAddressConsts ph rest gen)"

text \<open>
  \<^verbatim>\<open>translate\<close> returns a pair of a module pointer and an error, each of which may be
  nil, or panics in phase 8 (the left summand). The calls of \<^verbatim>\<open>dbg.Println\<close> with the time
  a phase took write to a log and have no counterpart here.
\<close>

definition translate ::
  "('a, 'z) phases \<Rightarrow> iteration \<Rightarrow> 'a \<Rightarrow> panic + (Module option \<times> error option)" where
  "translate ph it old =
     (let gen = newGenerator ph in
      case indexTopLevelEntities ph old gen of
        Inl err \<Rightarrow> Inr (None, Some (WithStack err))
      | Inr gen \<Rightarrow>
     (case resolveTypeDefs ph gen of
        Inl err \<Rightarrow> Inr (None, Some (WithStack err))
      | Inr gen \<Rightarrow>
     (case translateComdatDefs ph gen of
        Inl err \<Rightarrow> Inr (None, Some (WithStack err))
      | Inr gen \<Rightarrow>
     (case createTopLevelEntities ph gen of
        Inl err \<Rightarrow> Inr (None, Some (WithStack err))
      | Inr gen \<Rightarrow>
     (case translateTopLevelEntities ph gen of
        Inl err \<Rightarrow> Inr (None, Some (WithStack err))
      | Inr gen \<Rightarrow>
     (case translateUseListOrders ph (old_useListOrders gen) gen of
        Inl err \<Rightarrow> Inr (None, Some err)
      | Inr gen \<Rightarrow>
     (case translateUseListOrderBBs ph (old_useListOrderBBs gen) gen of
        Inl err \<Rightarrow> Inr (None, Some err)
      | Inr gen \<Rightarrow>
     (case fixBlockAddressConsts ph (todo gen) gen of
        Inl err \<Rightarrow> Inr (None, Some err)
      | Inr gen \<Rightarrow>
     (case addDefsToModule it gen of
        Inl p \<Rightarrow> Inl p
      | Inr gen \<Rightarrow> Inr (Some (m gen), None))))))))))"

subsection \<open>The phases as a sequence\<close>

text \<open>
  The propagation policy in the words of the spec: the phases run in order, and the
  first error aborts the run. \<open>run_phases\<close> is that policy on any list of phases;
  \<open>phase_list\<close> lists the phases 1 to 7 of \<^verbatim>\<open>translate\<close> (1, 2, 3, 4a, 4b, 5, 6, 7), each
  with the wrapping of its error. They are what \<^verbatim>\<open>translate\<close>, which is written as nested
  early returns, is compared with.
\<close>

fun run_phases :: "('s \<Rightarrow> 'e + 's) list \<Rightarrow> 's \<Rightarrow> 'e + 's" where
  "run_phases [] s = Inr s"
| "run_phases (phase # rest) s =
     (case phase s of
        Inl err \<Rightarrow> Inl err
      | Inr s' \<Rightarrow> run_phases rest s')"

definition withStack :: "('s \<Rightarrow> error + 's) \<Rightarrow> 's \<Rightarrow> error + 's" where
  "withStack phase s = (case phase s of Inl err \<Rightarrow> Inl (WithStack err) | Inr s' \<Rightarrow> Inr s')"

definition phase_list ::
  "('a, 'z) phases \<Rightarrow> 'a \<Rightarrow>
     (('a, 'z) generator_scheme \<Rightarrow> error + ('a, 'z) generator_scheme) list" where
  "phase_list ph old =
     [withStack (indexTopLevelEntities ph old),
      withStack (resolveTypeDefs ph),
      withStack (translateComdatDefs ph),
      withStack (createTopLevelEntities ph),
      withStack (translateTopLevelEntities ph),
      (\<lambda>gen. translateUseListOrders ph (old_useListOrders gen) gen),
      (\<lambda>gen. translateUseListOrderBBs ph (old_useListOrderBBs gen) gen),
      (\<lambda>gen. fixBlockAddressConsts ph (todo gen) gen)]"

text \<open>
  The phases 5, 6 and 7 in the words of the spec, without the loops of \<^verbatim>\<open>translate\<close>: each
  recorded directive, and each pending constant, is a step of its own, which translates
  one directive and attaches it to the module, or fixes one constant, and whose error,
  wrapped, aborts the run; a phase runs the steps of its list in order.
  \<open>directive_phases\<close> is the sequence of the phases 1 to 7 written this way.
\<close>

definition useListOrder_step ::
  "('a, 'z) phases \<Rightarrow> 'a \<Rightarrow> ('a, 'z) generator_scheme \<Rightarrow> error + ('a, 'z) generator_scheme" where
  "useListOrder_step ph directive gen =
     (case irUseListOrder ph gen directive of
        Inl err \<Rightarrow> Inl (WithStack err)
      | Inr u \<Rightarrow> Inr (gen\<lparr>m := (m gen)\<lparr>UseListOrders := UseListOrders (m gen) @ [u]\<rparr>\<rparr>))"

definition useListOrderBB_step ::
  "('a, 'z) phases \<Rightarrow> 'a \<Rightarrow> ('a, 'z) generator_scheme \<Rightarrow> error + ('a, 'z) generator_scheme" where
  "useListOrderBB_step ph directive gen =
     (case irUseListOrderBB ph gen directive of
        Inl err \<Rightarrow> Inl (WithStack err)
      | Inr u \<Rightarrow> Inr (gen\<lparr>m := (m gen)\<lparr>UseListOrderBBs := UseListOrderBBs (m gen) @ [u]\<rparr>\<rparr>))"

definition blockAddress_step ::
  "('a, 'z) phases \<Rightarrow> Constant \<Rightarrow> ('a, 'z) generator_scheme \<Rightarrow> error + ('a, 'z) generator_scheme" where
  "blockAddress_step ph c gen =
     (case fixBlockAddressConst ph c gen of
        Inl err \<Rightarrow> Inl (WithStack err)
      | Inr gen' \<Rightarrow> Inr gen')"

definition directive_phases ::
  "('a, 'z) phases \<Rightarrow> 'a \<Rightarrow>
     (('a, 'z) generator_scheme \<Rightarrow> error + ('a, 'z) generator_scheme) list" where
  "directive_phases ph old =
     [withStack (indexTopLevelEntities ph old),
      withStack (resolveTypeDefs ph),
      withStack (translateComdatDefs ph),
      withStack (createTopLevelEntities ph),
      withStack (translateTopLevelEntities ph),
      (\<lambda>gen. run_phases (map (useListOrder_step ph) (old_useListOrders gen)) gen),
      (\<lambda>gen. run_phases (map (useListOrderBB_step ph) (old_useListOrderBBs gen)) gen),
      (\<lambda>gen. run_phases (map (blockAddress_step ph) (todo gen)) gen)]"

text \<open>Which values of the table of globals are aliases, which are ifuncs.\<close>

fun is_alias :: "GlobalValue \<Rightarrow> bool" where
  "is_alias (IsAlias v) = True"
| "is_alias v = False"

fun is_ifunc :: "GlobalValue \<Rightarrow> bool" where
  "is_ifunc (IsIFunc v) = True"
| "is_ifunc v = False"

subsection \<open>A small module\<close>

text \<open>
  A generator as it stands before phase 8 for a module with two type definitions, two
  comdats, two globals, an ifunc between two aliases, two functions, two attribute
  groups, two named metadata definitions and three metadata definitions; the AST nodes
  are their source text. \<open>example_phases\<close> starts from it and lets every phase succeed
  without a change; \<open>failing_phases\<close> fails in phase 2; the two iterations range over the
  maps in opposite orders.
\<close>

definition example_module :: Module where
  "example_module =
     \<lparr>TypeDefs = [], ComdatDefs = [], Globals = [], Aliases = [], IFuncs = [], Funcs = [],
      AttrGroupDefs = [], NamedMetadataDefs = [], MetadataDefs = [],
      UseListOrders = [], UseListOrderBBs = []\<rparr>"

definition example_alias :: "string \<Rightarrow> Alias" where
  "example_alias name =
     \<lparr>GlobalIdent.GlobalName = name,
      Aliasee = Constant ''@g1'' (Pointer (PointerType (IntType 32) 0)),
      Typ = Some (PointerType (IntType 32) 0)\<rparr>"

definition example_function :: "string \<Rightarrow> Function" where
  "example_function name = \<lparr>Function.GlobalName = name, Params = [], Blocks = []\<rparr>"

definition example_generator :: "string generator" where
  "example_generator =
     \<lparr>old_typeDefs = [''node'' \<mapsto> ''type { i32, %node* }'', ''Pair'' \<mapsto> ''type { i32, i32 }''],
      old_comdatDefs = [''c2'' \<mapsto> ''comdat any'', ''c1'' \<mapsto> ''comdat largest''],
      old_globalOrder = [''g2'', ''g1''],
      old_indirectSymbolDefOrder = [''a2'', ''i1'', ''a1''],
      old_funcOrder = [''main'', ''f''],
      old_attrGroupDefs = [1 \<mapsto> ''{ nounwind }'', 0 \<mapsto> ''{ readnone }''],
      old_namedMetadataDefOrder = [''llvm.module.flags'', ''llvm.ident''],
      old_metadataDefs = [2 \<mapsto> ''!{!1}'', 0 \<mapsto> ''!{!2}'', 1 \<mapsto> ''!{}''],
      old_useListOrders = [],
      old_useListOrderBBs = [],
      new_typeDefs = [''node'' \<mapsto> StructType ''node'' [IntType 32],
                      ''Pair'' \<mapsto> StructType ''Pair'' [IntType 32, IntType 32]],
      new_comdatDefs = [''c2'' \<mapsto> ComdatDef ''c2'', ''c1'' \<mapsto> ComdatDef ''c1''],
      new_globals = [''g2'' \<mapsto> IsGlobal (Global ''g2''), ''g1'' \<mapsto> IsGlobal (Global ''g1''),
                     ''a2'' \<mapsto> IsAlias (example_alias ''a2''), ''i1'' \<mapsto> IsIFunc (IFunc ''i1''),
                     ''a1'' \<mapsto> IsAlias (example_alias ''a1''),
                     ''main'' \<mapsto> IsFunction (example_function ''main''),
                     ''f'' \<mapsto> IsFunction (example_function ''f'')],
      new_attrGroupDefs = [1 \<mapsto> AttrGroupDef 1, 0 \<mapsto> AttrGroupDef 0],
      new_namedMetadataDefs = [''llvm.module.flags'' \<mapsto> NamedMetadataDef ''llvm.module.flags'',
                               ''llvm.ident'' \<mapsto> NamedMetadataDef ''llvm.ident''],
      new_metadataDefs = [2 \<mapsto> MetadataDef 2, 0 \<mapsto> MetadataDef 0, 1 \<mapsto> MetadataDef 1],
      todo = [],
      m = example_module\<rparr>"

definition example_assembled :: Module where
  "example_assembled =
     \<lparr>TypeDefs = [StructType ''Pair'' [IntType 32, IntType 32], StructType ''node'' [IntType 32]],
      ComdatDefs = [ComdatDef ''c1'', ComdatDef ''c2''],
      Globals = [Global ''g2'', Global ''g1''],
      Aliases = [example_alias ''a2'', example_alias ''a1''],
      IFuncs = [IFunc ''i1''],
      Funcs = [example_function ''main'', example_function ''f''],
      AttrGroupDefs = [AttrGroupDef 0, AttrGroupDef 1],
      NamedMetadataDefs = [NamedMetadataDef ''llvm.module.flags'', NamedMetadataDef ''llvm.ident''],
      MetadataDefs = [MetadataDef 0, MetadataDef 1, MetadataDef 2],
      UseListOrders = [], UseListOrderBBs = []\<rparr>"

definition example_phases :: "(string, unit) phases" where
  "example_phases =
     \<lparr>newGenerator = example_generator,
      indexTopLevelEntities = (\<lambda>old gen. Inr gen),
      resolveTypeDefs = Inr,
      translateComdatDefs = Inr,
      createTopLevelEntities = Inr,
      translateTopLevelEntities = Inr,
      irUseListOrder = (\<lambda>gen old. Inr (UseListOrder old)),
      irUseListOrderBB = (\<lambda>gen old. Inr (UseListOrderBB old)),
      fixBlockAddressConst = (\<lambda>c gen. Inr gen)\<rparr>"

definition failing_phases :: "(string, unit) phases" where
  "failing_phases =
     example_phases\<lparr>resolveTypeDefs := (\<lambda>gen. Inl (OtherError ''undefined type'')),
       translateComdatDefs := (\<lambda>gen. Inl (OtherError ''not reached''))\<rparr>"

text \<open>
  Three more runs, which fail inside a loop: \<open>failing_directive\<close> has three use-list
  order directives, the second of which cannot be translated; \<open>failing_directiveBB\<close>
  likewise for the directives of basic blocks; \<open>failing_fixup\<close> has two pending
  \<^verbatim>\<open>blockaddress\<close> constants, the first of which names a block that does not exist.
\<close>

definition failing_directive :: "(string, unit) phases" where
  "failing_directive =
     example_phases
       \<lparr>newGenerator := example_generator
          \<lparr>old_useListOrders := [''uselistorder i32 7, { 1, 0 }'', ''uselistorder i32 8, { 0 }'',
             ''uselistorder i32 9, { 1, 0 }'']\<rparr>,
        irUseListOrder := (\<lambda>gen directive.
          if directive = ''uselistorder i32 8, { 0 }'' then Inl (OtherError ''invalid use-list order'')
          else Inr (UseListOrder directive))\<rparr>"

definition failing_directiveBB :: "(string, unit) phases" where
  "failing_directiveBB =
     example_phases
       \<lparr>newGenerator := example_generator
          \<lparr>old_useListOrderBBs := [''uselistorder_bb @f, %a, { 1, 0 }'',
             ''uselistorder_bb @f, %b, { 0 }'']\<rparr>,
        irUseListOrderBB := (\<lambda>gen directive.
          if directive = ''uselistorder_bb @f, %b, { 0 }'' then Inl (OtherError ''undefined block'')
          else Inr (UseListOrderBB directive))\<rparr>"

definition failing_fixup :: "(string, unit) phases" where
  "failing_fixup =
     example_phases
       \<lparr>newGenerator := example_generator
          \<lparr>todo := [Constant ''blockaddress(@f, %gone)'' (Pointer (PointerType (IntType 8) 0)),
             Constant ''blockaddress(@f, %entry)'' (Pointer (PointerType (IntType 8) 0))]\<rparr>,
        fixBlockAddressConst := (\<lambda>c gen.
          if c = Constant ''blockaddress(@f, %gone)'' (Pointer (PointerType (IntType 8) 0))
          then Inl (OtherError ''undefined block'') else Inr gen)\<rparr>"

definition iteration1 :: iteration where
  "iteration1 =
     \<lparr>range_typeDefs = [''node'', ''Pair''], range_comdatDefs = [''c2'', ''c1''],
      range_attrGroupDefs = [1, 0], range_metadataDefs = [2, 0, 1]\<rparr>"

definition iteration2 :: iteration where
  "iteration2 =
     \<lparr>range_typeDefs = [''Pair'', ''node''], range_comdatDefs = [''c1'', ''c2''],
      range_attrGroupDefs = [0, 1], range_metadataDefs = [1, 0, 2]\<rparr>"

section \<open>Properties of aliases\<close>

text \<open>
  C9, as stated, at an alias whose cache is already set: \<^verbatim>\<open>Type\<close> returns the cached
  pointer type whatever the type of the aliasee is. Here the aliasee has type
  \<^verbatim>\<open>i32*\<close>, the cache holds \<^verbatim>\<open>i8*\<close>, and \<^verbatim>\<open>Type\<close> answers \<^verbatim>\<open>i8*\<close>.
\<close>

theorem alias_type_cached_counterexample:
  "Constant_Type (Constant ''@b'' (Pointer (PointerType (IntType 32) 0)))
     = Pointer (PointerType (IntType 32) 0)
   \<and> Alias_Type \<lparr>GlobalIdent.GlobalName = ''a'',
        Aliasee = Constant ''@b'' (Pointer (PointerType (IntType 32) 0)),
        Typ = Some (PointerType (IntType 8) 0)\<rparr>
     = Inr (Pointer (PointerType (IntType 8) 0),
        \<lparr>GlobalIdent.GlobalName = ''a'',
         Aliasee = Constant ''@b'' (Pointer (PointerType (IntType 32) 0)),
         Typ = Some (PointerType (IntType 8) 0)\<rparr>)
   \<and> Pointer (PointerType (IntType 8) 0)
     \<noteq> Constant_Type (Constant ''@b'' (Pointer (PointerType (IntType 32) 0)))"
  by (simp add: Alias_Type_def)

text \<open>
  C9, amended: when the aliasee has pointer type \<open>p\<close>, \<^verbatim>\<open>NewAlias\<close> returns an alias
  with the given name and aliasee whose cached type is \<open>p\<close>, and \<^verbatim>\<open>Type\<close> on that alias
  returns \<open>p\<close> and leaves it unchanged; \<^verbatim>\<open>Type\<close> on any alias of that aliasee whose cache
  is unset returns \<open>p\<close> and caches it. An alias whose cache is set answers its cache and
  stays as it is, whatever the type of its aliasee \<open>c\<close>, pointer or not.
\<close>

theorem alias_type_is_aliasee_pointer_type:
  "(Constant_Type aliasee = Pointer p \<longrightarrow>
      NewAlias name aliasee
        = Inr \<lparr>GlobalIdent.GlobalName = name, Aliasee = aliasee, Typ = Some p\<rparr>
      \<and> Alias_Type \<lparr>GlobalIdent.GlobalName = name, Aliasee = aliasee, Typ = Some p\<rparr>
          = Inr (Pointer p, \<lparr>GlobalIdent.GlobalName = name, Aliasee = aliasee, Typ = Some p\<rparr>)
      \<and> Alias_Type \<lparr>GlobalIdent.GlobalName = n, Aliasee = aliasee, Typ = None, \<dots> = z\<rparr>
          = Inr (Pointer p, \<lparr>GlobalIdent.GlobalName = n, Aliasee = aliasee, Typ = Some p, \<dots> = z\<rparr>))
   \<and> Alias_Type \<lparr>GlobalIdent.GlobalName = n, Aliasee = c, Typ = Some q, \<dots> = z\<rparr>
        = Inr (Pointer q, \<lparr>GlobalIdent.GlobalName = n, Aliasee = c, Typ = Some q, \<dots> = z\<rparr>)"
  by (simp add: NewAlias_def Alias_Type_def Alias_SetName_def)

theorem alias_type_is_aliasee_pointer_type_witness:
  "NewAlias ''a'' (Constant ''@b'' (Pointer (PointerType (IntType 32) 0)))
     = Inr \<lparr>GlobalIdent.GlobalName = ''a'',
            Aliasee = Constant ''@b'' (Pointer (PointerType (IntType 32) 0)),
            Typ = Some (PointerType (IntType 32) 0)\<rparr>
   \<and> Alias_Type \<lparr>GlobalIdent.GlobalName = ''c'',
        Aliasee = Constant ''@b'' (Pointer (PointerType (IntType 32) 0)),
        Typ = None\<rparr>
     = Inr (Pointer (PointerType (IntType 32) 0),
        \<lparr>GlobalIdent.GlobalName = ''c'',
         Aliasee = Constant ''@b'' (Pointer (PointerType (IntType 32) 0)),
         Typ = Some (PointerType (IntType 32) 0)\<rparr>)
   \<and> Alias_Type \<lparr>GlobalIdent.GlobalName = ''c'', Aliasee = Constant ''7'' (IntType 32),
        Typ = Some (PointerType (IntType 8) 0)\<rparr>
     = Inr (Pointer (PointerType (IntType 8) 0),
        \<lparr>GlobalIdent.GlobalName = ''c'', Aliasee = Constant ''7'' (IntType 32),
         Typ = Some (PointerType (IntType 8) 0)\<rparr>)"
proof -
  have h: "Constant_Type (Constant ''@b'' (Pointer (PointerType (IntType 32) 0)))
             = Pointer (PointerType (IntType 32) 0)"
    by simp
  from alias_type_is_aliasee_pointer_type
    [where aliasee = "Constant ''@b'' (Pointer (PointerType (IntType 32) 0))"
       and p = "PointerType (IntType 32) 0" and name = "''a''" and n = "''c''" and z = "()"
       and c = "Constant ''7'' (IntType 32)" and q = "PointerType (IntType 8) 0"] h
  show ?thesis by simp
qed

text \<open>
  C10: \<^verbatim>\<open>NewAlias\<close>, and \<^verbatim>\<open>Type\<close> on an alias whose cache is unset, panic exactly when
  the type of the aliasee is not a pointer type, with the alias name and the offending
  type in the panic; when the aliasee has pointer type neither of them panics, and
  \<^verbatim>\<open>Type\<close> does not panic whatever the cache holds.
\<close>

theorem alias_panics_iff_aliasee_not_pointer:
  "(asPointerType (Constant_Type aliasee) = None \<longrightarrow>
      NewAlias name aliasee = Inl (InvalidAliaseeType name (Constant_Type aliasee))
      \<and> Alias_Type \<lparr>GlobalIdent.GlobalName = name, Aliasee = aliasee, Typ = None, \<dots> = z\<rparr>
          = Inl (InvalidAliaseeType name (Constant_Type aliasee)))
   \<and> (asPointerType (Constant_Type aliasee) \<noteq> None \<longrightarrow>
      \<not> isl (NewAlias name aliasee)
      \<and> \<not> isl (Alias_Type \<lparr>GlobalIdent.GlobalName = name, Aliasee = aliasee, Typ = c, \<dots> = z\<rparr>))"
  by (auto simp: NewAlias_def Alias_Type_def Alias_SetName_def split: option.splits)

theorem alias_panics_iff_aliasee_not_pointer_witness:
  "NewAlias ''a'' (Constant ''7'' (IntType 32))
     = Inl (InvalidAliaseeType ''a'' (IntType 32))
   \<and> Alias_Type \<lparr>GlobalIdent.GlobalName = ''a'', Aliasee = Constant ''7'' (IntType 32), Typ = None\<rparr>
     = Inl (InvalidAliaseeType ''a'' (IntType 32))
   \<and> \<not> isl (NewAlias ''a'' (Constant ''@b'' (Pointer (PointerType (IntType 32) 0))))
   \<and> \<not> isl (Alias_Type \<lparr>GlobalIdent.GlobalName = ''a'',
        Aliasee = Constant ''@b'' (Pointer (PointerType (IntType 32) 0)), Typ = None\<rparr>)"
proof -
  have np: "asPointerType (Constant_Type (Constant ''7'' (IntType 32))) = None"
    by simp
  have pt: "asPointerType (Constant_Type
      (Constant ''@b'' (Pointer (PointerType (IntType 32) 0)))) \<noteq> None"
    by simp
  from alias_panics_iff_aliasee_not_pointer
         [of "Constant ''7'' (IntType 32)" "''a''" "()" None] np
  have a: "NewAlias ''a'' (Constant ''7'' (IntType 32))
             = Inl (InvalidAliaseeType ''a'' (IntType 32))
           \<and> Alias_Type \<lparr>GlobalIdent.GlobalName = ''a'', Aliasee = Constant ''7'' (IntType 32),
                Typ = None\<rparr>
             = Inl (InvalidAliaseeType ''a'' (IntType 32))"
    by simp
  from alias_panics_iff_aliasee_not_pointer
         [of "Constant ''@b'' (Pointer (PointerType (IntType 32) 0))" "''a''" "()" None] pt
  have b: "\<not> isl (NewAlias ''a'' (Constant ''@b'' (Pointer (PointerType (IntType 32) 0))))
           \<and> \<not> isl (Alias_Type \<lparr>GlobalIdent.GlobalName = ''a'',
                Aliasee = Constant ''@b'' (Pointer (PointerType (IntType 32) 0)),
                Typ = None\<rparr>)"
    by simp
  from a b show ?thesis by simp
qed

section \<open>Properties of local-ID assignment\<close>

subsection \<open>Decimal numerals and the closure\<close>

lemma digit_in_digits: "k < 10 \<Longrightarrow> digits ! k \<in> set digits"
  by (rule nth_mem) (simp add: digits_def)

lemma Itoa_not_Nil: "Itoa n \<noteq> []"
  by (subst Itoa.simps) simp

lemma Itoa_all_digits: "list_all (\<lambda>r. r \<in> set digits) (Itoa n)"
proof (induction n rule: Itoa.induct)
  case (1 n)
  show ?case
  proof (cases "n < 10")
    case True
    then show ?thesis
      by (subst Itoa.simps) (simp add: digit_in_digits)
  next
    case False
    with "1.IH" have "list_all (\<lambda>r. r \<in> set digits) (Itoa (n div 10))" by simp
    moreover have "digits ! (n mod 10) \<in> set digits"
      by (rule digit_in_digits) simp
    ultimately show ?thesis using False
      by (subst Itoa.simps) simp
  qed
qed

lemma isLocalID_Itoa: "isLocalID (Itoa n)"
  by (simp add: isLocalID_def Itoa_not_Nil Itoa_all_digits)

lemma not_isUnnamed_Itoa: "\<not> isUnnamed (Itoa n)"
  by (simp add: isUnnamed_def Itoa_not_Nil)

lemma isLocalID_not_isUnnamed: "isLocalID name \<Longrightarrow> \<not> isUnnamed name"
  by (simp add: isLocalID_def isUnnamed_def)

lemma setName_cases:
  assumes "setName fn Name SetName id0 n = Inr (n', id1)"
  obtains (unnamed) "isUnnamed (Name n)" "n' = SetName (Itoa id0) n" "id1 = Suc id0"
  | (local_id) "\<not> isUnnamed (Name n)" "isLocalID (Name n)" "Name n = Itoa id0" "n' = n" "id1 = Suc id0"
  | (named) "\<not> isUnnamed (Name n)" "\<not> isLocalID (Name n)" "n' = n" "id1 = id0"
proof (cases "isUnnamed (Name n)")
  case True
  with assms have "n' = SetName (Itoa id0) n \<and> id1 = Suc id0"
    by (simp add: setName_def)
  with True show ?thesis by (intro unnamed) simp_all
next
  case u: False
  show ?thesis
  proof (cases "isLocalID (Name n)")
    case True
    with u assms have "Name n = Itoa id0 \<and> n' = n \<and> id1 = Suc id0"
      by (cases "Itoa id0 = Name n") (simp_all add: setName_def)
    with u True show ?thesis by (intro local_id) simp_all
  next
    case False
    with u assms have "n' = n \<and> id1 = id0"
      by (simp add: setName_def)
    with u False show ?thesis by (intro named) simp_all
  qed
qed

lemma setName_idem:
  assumes law: "\<And>s. Name (SetName s n) = s"
    and ok: "setName fn Name SetName id0 n = Inr (n', id1)"
  shows "setName fn Name SetName id0 n' = Inr (n', id1)"
  using ok
proof (cases rule: setName_cases)
  case unnamed
  then show ?thesis
    by (simp add: setName_def law isLocalID_Itoa not_isUnnamed_Itoa)
next
  case local_id
  then show ?thesis using ok by simp
next
  case named
  then show ?thesis using ok by simp
qed

lemma setName_name_after:
  assumes law: "\<And>s. Name (SetName s n) = s"
    and ok: "setName fn Name SetName id0 n = Inr (n', id1)"
  shows "\<not> isUnnamed (Name n') \<and>
    (if isLocalID (Name n') then Name n' = Itoa id0 \<and> id1 = Suc id0 else id1 = id0)"
  using ok
proof (cases rule: setName_cases)
  case unnamed
  then show ?thesis by (simp add: law isLocalID_Itoa not_isUnnamed_Itoa)
next
  case local_id
  then show ?thesis by (simp add: isLocalID_Itoa not_isUnnamed_Itoa)
next
  case named
  then show ?thesis by simp
qed

lemma setName_fixedI:
  assumes "\<not> isUnnamed (Name n)"
    and "if isLocalID (Name n) then Name n = Itoa id0 \<and> id1 = Suc id0 else id1 = id0"
  shows "setName fn Name SetName id0 n = Inr (n, id1)"
  using assms by (cases "isLocalID (Name n)") (simp_all add: setName_def)

lemma setName_result:
  assumes "setName fn Name SetName id0 n = Inr (n', id1)"
  shows "n' = n \<or> n' = SetName (Itoa id0) n"
  using assms by (cases rule: setName_cases) simp_all

lemma Param_Name_SetName: "Param_Name (Param_SetName s p) = s"
  by (cases p) simp

lemma Block_Name_SetName: "Block_Name (Block_SetName s b) = s"
  by (simp add: Block_Name_def Block_SetName_def)

lemma Inst_Name_SetName: "Inst_isNamed i \<Longrightarrow> Inst_Name (Inst_SetName s i) = s"
  by (cases i) simp_all

lemma Term_Name_SetName: "Term_isNamed t \<Longrightarrow> Term_Name (Term_SetName s t) = s"
  by (cases t) simp_all

lemma Inst_SetName_kind:
  "Inst_isNamed (Inst_SetName s i) = Inst_isNamed i"
  "isVoidValue (Inl (Inst_SetName s i)) = isVoidValue (Inl i)"
  by (cases i; simp)+

lemma Term_SetName_kind:
  "Term_isNamed (Term_SetName s t) = Term_isNamed t"
  "isVoidValue (Inr (Term_SetName s t)) = isVoidValue (Inr t)"
  by (cases t; simp)+

subsection \<open>A second run finds nothing to do\<close>

lemma assignParams_idem:
  "assignParams fn id0 ps = Inr (ps', id1) \<Longrightarrow> assignParams fn id0 ps' = Inr (ps', id1)"
proof (induction ps arbitrary: id0 ps' id1)
  case Nil
  then show ?case by simp
next
  case (Cons p ps)
  from Cons.prems obtain p' i ps1 where
    s: "setName fn Param_Name Param_SetName id0 p = Inr (p', i)"
    and r: "assignParams fn i ps = Inr (ps1, id1)" and e: "ps' = p' # ps1"
    by (auto split: sum.splits prod.splits)
  from s have "setName fn Param_Name Param_SetName id0 p' = Inr (p', i)"
    by (rule setName_idem [rotated]) (rule Param_Name_SetName)
  moreover from r have "assignParams fn i ps1 = Inr (ps1, id1)" by (rule Cons.IH)
  ultimately show ?case using e by simp
qed

lemma assignInsts_idem:
  "assignInsts fn id0 is = Inr (is', id1) \<Longrightarrow> assignInsts fn id0 is' = Inr (is', id1)"
proof (induction "is" arbitrary: id0 is' id1)
  case Nil
  then show ?case by simp
next
  case (Cons x xs)
  show ?case
  proof (cases "\<not> Inst_isNamed x \<or> isVoidValue (Inl x)")
    case True
    with Cons.prems obtain xs1 where
      r: "assignInsts fn id0 xs = Inr (xs1, id1)" and e: "is' = x # xs1"
      by (auto split: sum.splits prod.splits)
    from r have "assignInsts fn id0 xs1 = Inr (xs1, id1)" by (rule Cons.IH)
    with True e show ?thesis by simp
  next
    case False
    with Cons.prems obtain x' i xs1 where
      s: "setName fn Inst_Name Inst_SetName id0 x = Inr (x', i)"
      and r: "assignInsts fn i xs = Inr (xs1, id1)" and e: "is' = x' # xs1"
      by (auto split: sum.splits prod.splits)
    from False have nm: "Inst_isNamed x" by simp
    from s have s': "setName fn Inst_Name Inst_SetName id0 x' = Inr (x', i)"
      by (rule setName_idem [rotated]) (rule Inst_Name_SetName [OF nm])
    from setName_result [OF s] False
    have k: "\<not> (\<not> Inst_isNamed x' \<or> isVoidValue (Inl x'))"
      by (auto simp: Inst_SetName_kind)
    from r have "assignInsts fn i xs1 = Inr (xs1, id1)" by (rule Cons.IH)
    with s' k e show ?thesis by simp
  qed
qed

lemma assignTerm_idem:
  assumes "assignTerm fn id0 t = Inr (t', id1)"
  shows "assignTerm fn id0 t' = Inr (t', id1)"
proof (cases "\<not> Term_isNamed t \<or> isVoidValue (Inr t)")
  case True
  with assms show ?thesis by (simp add: assignTerm_def)
next
  case False
  with assms have s: "setName fn Term_Name Term_SetName id0 t = Inr (t', id1)"
    by (auto simp: assignTerm_def split: sum.splits prod.splits)
  from False have nm: "Term_isNamed t" by simp
  from s have s': "setName fn Term_Name Term_SetName id0 t' = Inr (t', id1)"
    by (rule setName_idem [rotated]) (rule Term_Name_SetName [OF nm])
  from setName_result [OF s] False
  have "\<not> (\<not> Term_isNamed t' \<or> isVoidValue (Inr t'))"
    by (auto simp: Term_SetName_kind)
  with s' show ?thesis by (simp add: assignTerm_def)
qed

lemma assignBlocks_idem:
  "assignBlocks fn id0 bs = Inr (bs', id1) \<Longrightarrow> assignBlocks fn id0 bs' = Inr (bs', id1)"
proof (induction bs arbitrary: id0 bs' id1)
  case Nil
  then show ?case by simp
next
  case (Cons b bs)
  from Cons.prems obtain b1 i1 is' i2 t' i3 bs1 where
    s: "setName fn Block_Name Block_SetName id0 b = Inr (b1, i1)"
    and a: "assignInsts fn i1 (Insts b1) = Inr (is', i2)"
    and t: "assignTerm fn i2 (Term b1) = Inr (t', i3)"
    and r: "assignBlocks fn i3 bs = Inr (bs1, id1)"
    and e: "bs' = b1\<lparr>Insts := is', Term := t'\<rparr> # bs1"
    by (auto split: sum.splits prod.splits)
  let ?b2 = "b1\<lparr>Insts := is', Term := t'\<rparr>"
  have nb: "Block_Name ?b2 = Block_Name b1" by (simp add: Block_Name_def)
  from s have "\<not> isUnnamed (Block_Name b1) \<and>
    (if isLocalID (Block_Name b1) then Block_Name b1 = Itoa id0 \<and> i1 = Suc id0 else i1 = id0)"
    by (rule setName_name_after [rotated]) (rule Block_Name_SetName)
  then have s2: "setName fn Block_Name Block_SetName id0 ?b2 = Inr (?b2, i1)"
    by (intro setName_fixedI) (simp_all add: nb)
  from a have a': "assignInsts fn i1 is' = Inr (is', i2)" by (rule assignInsts_idem)
  from t have t': "assignTerm fn i2 t' = Inr (t', i3)" by (rule assignTerm_idem)
  from r have "assignBlocks fn i3 bs1 = Inr (bs1, id1)" by (rule Cons.IH)
  with s2 a' t' e show ?case by simp
qed

text \<open>
  C6: local-ID assignment is idempotent. When \<^verbatim>\<open>AssignIDs\<close> succeeds on a function and
  leaves it as \<open>f'\<close>, a second run on \<open>f'\<close> succeeds as well and returns \<open>f'\<close> itself:
  no name of a parameter, block, instruction or terminator changes, nor any other field.
\<close>

theorem AssignIDs_idempotent: "AssignIDs f = Inr f' \<Longrightarrow> AssignIDs f' = Inr f'"
proof (cases "length (Blocks f) = 0")
  case True
  assume "AssignIDs f = Inr f'"
  with True show ?thesis by (simp add: AssignIDs_def)
next
  case False
  assume ok: "AssignIDs f = Inr f'"
  with False obtain ps i bs j where
    p: "assignParams (GlobalName f) 0 (Params f) = Inr (ps, i)"
    and b: "assignBlocks (GlobalName f) i (Blocks f) = Inr (bs, j)"
    and e: "f' = f\<lparr>Params := ps, Blocks := bs\<rparr>"
    by (auto simp: AssignIDs_def split: sum.splits prod.splits)
  from p have p': "assignParams (GlobalName f) 0 ps = Inr (ps, i)" by (rule assignParams_idem)
  from b have b': "assignBlocks (GlobalName f) i bs = Inr (bs, j)" by (rule assignBlocks_idem)
  show ?thesis
  proof (cases "length bs = 0")
    case True
    with e show ?thesis by (simp add: AssignIDs_def)
  next
    case False
    with p' b' e show ?thesis by (simp add: AssignIDs_def)
  qed
qed


theorem AssignIDs_idempotent_witness:
  "AssignIDs
     \<lparr>GlobalName = ''f'',
      Params = [Param [] (IntType 32), Param ''x'' (IntType 32)],
      Blocks = [\<lparr>LocalName = [],
                 Insts = [InstCall [] VoidType, InstValue ''add'' [] (IntType 32)],
                 Term = TermOther ''ret''\<rparr>]\<rparr>
   = Inr \<lparr>GlobalName = ''f'',
      Params = [Param ''0'' (IntType 32), Param ''x'' (IntType 32)],
      Blocks = [\<lparr>LocalName = ''1'',
                 Insts = [InstCall [] VoidType, InstValue ''add'' ''2'' (IntType 32)],
                 Term = TermOther ''ret''\<rparr>]\<rparr>
   \<and> AssignIDs
     \<lparr>GlobalName = ''f'',
      Params = [Param ''0'' (IntType 32), Param ''x'' (IntType 32)],
      Blocks = [\<lparr>LocalName = ''1'',
                 Insts = [InstCall [] VoidType, InstValue ''add'' ''2'' (IntType 32)],
                 Term = TermOther ''ret''\<rparr>]\<rparr>
   = Inr \<lparr>GlobalName = ''f'',
      Params = [Param ''0'' (IntType 32), Param ''x'' (IntType 32)],
      Blocks = [\<lparr>LocalName = ''1'',
                 Insts = [InstCall [] VoidType, InstValue ''add'' ''2'' (IntType 32)],
                 Term = TermOther ''ret''\<rparr>]\<rparr>"
proof -
  have first: "AssignIDs
     \<lparr>GlobalName = ''f'',
      Params = [Param [] (IntType 32), Param ''x'' (IntType 32)],
      Blocks = [\<lparr>LocalName = [],
                 Insts = [InstCall [] VoidType, InstValue ''add'' [] (IntType 32)],
                 Term = TermOther ''ret''\<rparr>]\<rparr>
   = Inr \<lparr>GlobalName = ''f'',
      Params = [Param ''0'' (IntType 32), Param ''x'' (IntType 32)],
      Blocks = [\<lparr>LocalName = ''1'',
                 Insts = [InstCall [] VoidType, InstValue ''add'' ''2'' (IntType 32)],
                 Term = TermOther ''ret''\<rparr>]\<rparr>"
    by (simp add: AssignIDs_def assignTerm_def setName_def isUnnamed_def isLocalID_def
        Block_Name_def Block_SetName_def Itoa.simps digits_def)
  from first AssignIDs_idempotent [OF first] show ?thesis by (rule conjI)
qed

subsection \<open>The numeric names are packed\<close>

lemma packed_Nil: "packed i i []"
  by (simp add: packed_def)

lemma packed_append:
  assumes "packed i j xs" and "packed j k ys"
  shows "packed i k (xs @ ys)"
proof -
  from assms have "i \<le> j" and "j \<le> k" by (simp_all add: packed_def)
  then have "[i..<j] @ [j..<k] = [i..<k]"
    by (metis le_Suc_ex upt_add_eq_append)
  with assms show ?thesis by (simp add: packed_def flip: map_append)
qed

lemma packed_Cons:
  assumes "packed i j [x]" and "packed j k ys"
  shows "packed i k (x # ys)"
  using packed_append [OF assms] by simp

lemma setName_packed:
  assumes law: "\<And>s. Name (SetName s n) = s"
    and ok: "setName fn Name SetName id0 n = Inr (n', id1)"
  shows "packed id0 id1 [Name n']"
  using setName_name_after [OF law ok]
  by (cases "isLocalID (Name n')") (simp_all add: packed_def not_isUnnamed_Itoa)

lemma assignParams_packed:
  "assignParams fn id0 ps = Inr (ps', id1) \<Longrightarrow> packed id0 id1 (map Param_Name ps')"
proof (induction ps arbitrary: id0 ps' id1)
  case Nil
  then show ?case by (auto simp: packed_Nil)
next
  case (Cons p ps)
  from Cons.prems obtain p' i ps1 where
    s: "setName fn Param_Name Param_SetName id0 p = Inr (p', i)"
    and r: "assignParams fn i ps = Inr (ps1, id1)" and e: "ps' = p' # ps1"
    by (auto split: sum.splits prod.splits)
  from s have "packed id0 i [Param_Name p']"
    by (rule setName_packed [rotated]) (rule Param_Name_SetName)
  moreover from r have "packed i id1 (map Param_Name ps1)" by (rule Cons.IH)
  ultimately show ?case using e by (simp add: packed_Cons)
qed

lemma assignInsts_packed:
  "assignInsts fn id0 is = Inr (is', id1) \<Longrightarrow>
   packed id0 id1 (map Inst_Name (filter Inst_numbered is'))"
proof (induction "is" arbitrary: id0 is' id1)
  case Nil
  then show ?case by (auto simp: packed_Nil)
next
  case (Cons x xs)
  show ?case
  proof (cases "\<not> Inst_isNamed x \<or> isVoidValue (Inl x)")
    case True
    with Cons.prems obtain xs1 where
      r: "assignInsts fn id0 xs = Inr (xs1, id1)" and e: "is' = x # xs1"
      by (auto split: sum.splits prod.splits)
    from r have "packed id0 id1 (map Inst_Name (filter Inst_numbered xs1))" by (rule Cons.IH)
    moreover from True have "\<not> Inst_numbered x" by (simp add: Inst_numbered_def)
    ultimately show ?thesis using e by simp
  next
    case False
    with Cons.prems obtain x' i xs1 where
      s: "setName fn Inst_Name Inst_SetName id0 x = Inr (x', i)"
      and r: "assignInsts fn i xs = Inr (xs1, id1)" and e: "is' = x' # xs1"
      by (auto split: sum.splits prod.splits)
    from False have nm: "Inst_isNamed x" by simp
    from s have h: "packed id0 i [Inst_Name x']"
      by (rule setName_packed [rotated]) (rule Inst_Name_SetName [OF nm])
    from setName_result [OF s] False have k: "Inst_numbered x'"
      by (auto simp: Inst_SetName_kind Inst_numbered_def)
    from r have "packed i id1 (map Inst_Name (filter Inst_numbered xs1))" by (rule Cons.IH)
    with h k e show ?thesis by (simp add: packed_Cons)
  qed
qed

lemma assignTerm_packed:
  assumes "assignTerm fn id0 t = Inr (t', id1)"
  shows "packed id0 id1 (map Term_Name (filter Term_numbered [t']))"
proof (cases "\<not> Term_isNamed t \<or> isVoidValue (Inr t)")
  case True
  with assms show ?thesis by (auto simp: assignTerm_def Term_numbered_def packed_Nil)
next
  case False
  with assms have s: "setName fn Term_Name Term_SetName id0 t = Inr (t', id1)"
    by (auto simp: assignTerm_def split: sum.splits prod.splits)
  from False have nm: "Term_isNamed t" by simp
  from s have h: "packed id0 id1 [Term_Name t']"
    by (rule setName_packed [rotated]) (rule Term_Name_SetName [OF nm])
  from setName_result [OF s] False have "Term_numbered t'"
    by (auto simp: Term_SetName_kind Term_numbered_def)
  with h show ?thesis by simp
qed

lemma assignBlocks_packed:
  "assignBlocks fn id0 bs = Inr (bs', id1) \<Longrightarrow> packed id0 id1 (concat (map blockNames bs'))"
proof (induction bs arbitrary: id0 bs' id1)
  case Nil
  then show ?case by (auto simp: packed_Nil)
next
  case (Cons b bs)
  from Cons.prems obtain b1 i1 is' i2 t' i3 bs1 where
    s: "setName fn Block_Name Block_SetName id0 b = Inr (b1, i1)"
    and a: "assignInsts fn i1 (Insts b1) = Inr (is', i2)"
    and t: "assignTerm fn i2 (Term b1) = Inr (t', i3)"
    and r: "assignBlocks fn i3 bs = Inr (bs1, id1)"
    and e: "bs' = b1\<lparr>Insts := is', Term := t'\<rparr> # bs1"
    by (auto split: sum.splits prod.splits)
  from s have "packed id0 i1 [Block_Name b1]"
    by (rule setName_packed [rotated]) (rule Block_Name_SetName)
  moreover from a have "packed i1 i2 (map Inst_Name (filter Inst_numbered is'))"
    by (rule assignInsts_packed)
  moreover from t have "packed i2 i3 (map Term_Name (filter Term_numbered [t']))"
    by (rule assignTerm_packed)
  ultimately have "packed id0 i3
      ([Block_Name b1] @ map Inst_Name (filter Inst_numbered is')
         @ map Term_Name (filter Term_numbered [t']))"
    by (blast intro: packed_append)
  then have "packed id0 i3 (blockNames (b1\<lparr>Insts := is', Term := t'\<rparr>))"
    by (simp add: blockNames_def Block_Name_def)
  moreover from r have "packed i3 id1 (concat (map blockNames bs1))" by (rule Cons.IH)
  ultimately show ?case using e by (simp add: packed_append)
qed

lemma AssignIDs_packed:
  assumes "AssignIDs f = Inr f'" and "Blocks f \<noteq> []"
  shows "\<exists>n. packed 0 n (valueNames f')"
proof -
  from assms obtain ps i bs j where
    p: "assignParams (GlobalName f) 0 (Params f) = Inr (ps, i)"
    and b: "assignBlocks (GlobalName f) i (Blocks f) = Inr (bs, j)"
    and e: "f' = f\<lparr>Params := ps, Blocks := bs\<rparr>"
    by (auto simp: AssignIDs_def split: sum.splits prod.splits)
  from assignParams_packed [OF p] assignBlocks_packed [OF b] e
  have "packed 0 j (valueNames f')"
    by (simp add: valueNames_def packed_append)
  then show ?thesis ..
qed

lemma packed_localIDs:
  assumes "packed 0 n names"
  shows "filter isLocalID names = map Itoa [0..<length (filter isLocalID names)]"
proof -
  from assms have "filter isLocalID names = map Itoa [0..<n]" by (simp add: packed_def)
  moreover from this have "length (filter isLocalID names) = n" by simp
  ultimately show ?thesis by simp
qed


text \<open>
  C3, as stated, on the function with parameters \<^verbatim>\<open>(i32, i32 %x, i32)\<close> and the entry
  block \<^verbatim>\<open>add; sub\<close> (closed by a \<^verbatim>\<open>ret\<close>): the result is not the one with parameters
  \<^verbatim>\<open>%0\<close>, \<^verbatim>\<open>%2\<close> and entry block \<^verbatim>\<open>%1\<close>. And the general part fails on a declaration:
  \<^verbatim>\<open>AssignIDs\<close> returns at once on a function without blocks, so that a parameter
  \<^verbatim>\<open>%7\<close> stays, and the only numeric ID is 7, not 0.
\<close>

theorem local_id_packing_counterexample:
  "AssignIDs
     \<lparr>GlobalName = ''f'',
      Params = [Param [] (IntType 32), Param ''x'' (IntType 32), Param [] (IntType 32)],
      Blocks = [\<lparr>LocalName = [],
                 Insts = [InstValue ''add'' [] (IntType 32), InstValue ''sub'' [] (IntType 32)],
                 Term = TermOther ''ret''\<rparr>]\<rparr>
   \<noteq> Inr \<lparr>GlobalName = ''f'',
      Params = [Param ''0'' (IntType 32), Param ''x'' (IntType 32), Param ''2'' (IntType 32)],
      Blocks = [\<lparr>LocalName = ''1'',
                 Insts = [InstValue ''add'' ''3'' (IntType 32), InstValue ''sub'' ''4'' (IntType 32)],
                 Term = TermOther ''ret''\<rparr>]\<rparr>
   \<and> AssignIDs \<lparr>GlobalName = ''g'', Params = [Param ''7'' (IntType 32)], Blocks = []\<rparr>
     = Inr \<lparr>GlobalName = ''g'', Params = [Param ''7'' (IntType 32)], Blocks = []\<rparr>
   \<and> localIDs \<lparr>GlobalName = ''g'', Params = [Param ''7'' (IntType 32)], Blocks = []\<rparr>
     = [''7'']
   \<and> [''7''] \<noteq> map Itoa [0..<1]"
  by (simp add: AssignIDs_def assignTerm_def setName_def isUnnamed_def isLocalID_def
      Block_Name_def Block_SetName_def Itoa.simps digits_def localIDs_def valueNames_def)

text \<open>
  C3, amended: on that function the unnamed parameters become \<^verbatim>\<open>%0\<close> and \<^verbatim>\<open>%1\<close>,
  \<^verbatim>\<open>%x\<close> keeps its name, the entry block becomes \<^verbatim>\<open>%2\<close>, the \<^verbatim>\<open>add\<close> \<^verbatim>\<open>%3\<close> and the
  \<^verbatim>\<open>sub\<close> \<^verbatim>\<open>%4\<close>. In general, for a function with at least one block on which
  \<^verbatim>\<open>AssignIDs\<close> succeeds, the numeric names met in the order of the traversal
  (parameters first, then every block followed by its numbered instructions and its
  numbered terminator) are the decimal numerals of 0, 1, 2, ... without a gap, and no
  entity of the traversal is left unnamed.
\<close>

theorem local_id_packing:
  "AssignIDs
     \<lparr>GlobalName = ''f'',
      Params = [Param [] (IntType 32), Param ''x'' (IntType 32), Param [] (IntType 32)],
      Blocks = [\<lparr>LocalName = [],
                 Insts = [InstValue ''add'' [] (IntType 32), InstValue ''sub'' [] (IntType 32)],
                 Term = TermOther ''ret''\<rparr>]\<rparr>
   = Inr \<lparr>GlobalName = ''f'',
      Params = [Param ''0'' (IntType 32), Param ''x'' (IntType 32), Param ''1'' (IntType 32)],
      Blocks = [\<lparr>LocalName = ''2'',
                 Insts = [InstValue ''add'' ''3'' (IntType 32), InstValue ''sub'' ''4'' (IntType 32)],
                 Term = TermOther ''ret''\<rparr>]\<rparr>
   \<and> (AssignIDs f = Inr f' \<and> Blocks f \<noteq> [] \<longrightarrow>
        localIDs f' = map Itoa [0..<length (localIDs f')]
        \<and> list_all (\<lambda>name. \<not> isUnnamed name) (valueNames f'))"
proof (intro conjI impI)
  show "AssignIDs
     \<lparr>GlobalName = ''f'',
      Params = [Param [] (IntType 32), Param ''x'' (IntType 32), Param [] (IntType 32)],
      Blocks = [\<lparr>LocalName = [],
                 Insts = [InstValue ''add'' [] (IntType 32), InstValue ''sub'' [] (IntType 32)],
                 Term = TermOther ''ret''\<rparr>]\<rparr>
   = Inr \<lparr>GlobalName = ''f'',
      Params = [Param ''0'' (IntType 32), Param ''x'' (IntType 32), Param ''1'' (IntType 32)],
      Blocks = [\<lparr>LocalName = ''2'',
                 Insts = [InstValue ''add'' ''3'' (IntType 32), InstValue ''sub'' ''4'' (IntType 32)],
                 Term = TermOther ''ret''\<rparr>]\<rparr>"
    by (simp add: AssignIDs_def assignTerm_def setName_def isUnnamed_def isLocalID_def
        Block_Name_def Block_SetName_def Itoa.simps digits_def)
next
  assume "AssignIDs f = Inr f' \<and> Blocks f \<noteq> []"
  then obtain n where p: "packed 0 n (valueNames f')"
    using AssignIDs_packed by blast
  then show "localIDs f' = map Itoa [0..<length (localIDs f')]"
    unfolding localIDs_def by (rule packed_localIDs)
  from p show "list_all (\<lambda>name. \<not> isUnnamed name) (valueNames f')"
    by (simp add: packed_def)
qed

theorem local_id_packing_witness:
  "AssignIDs
     \<lparr>GlobalName = ''f'', Params = [Param [] (IntType 32), Param ''x'' (IntType 32)],
      Blocks = [\<lparr>LocalName = [],
                 Insts = [InstOther ''store'', InstValue ''add'' [] (IntType 32)],
                 Term = TermOther ''ret''\<rparr>,
                \<lparr>LocalName = ''exit'', Insts = [InstValue ''sub'' ''3'' (IntType 32)],
                 Term = TermOther ''ret''\<rparr>]\<rparr>
   = Inr
     \<lparr>GlobalName = ''f'', Params = [Param ''0'' (IntType 32), Param ''x'' (IntType 32)],
      Blocks = [\<lparr>LocalName = ''1'',
                 Insts = [InstOther ''store'', InstValue ''add'' ''2'' (IntType 32)],
                 Term = TermOther ''ret''\<rparr>,
                \<lparr>LocalName = ''exit'', Insts = [InstValue ''sub'' ''3'' (IntType 32)],
                 Term = TermOther ''ret''\<rparr>]\<rparr>
   \<and> localIDs
     \<lparr>GlobalName = ''f'', Params = [Param ''0'' (IntType 32), Param ''x'' (IntType 32)],
      Blocks = [\<lparr>LocalName = ''1'',
                 Insts = [InstOther ''store'', InstValue ''add'' ''2'' (IntType 32)],
                 Term = TermOther ''ret''\<rparr>,
                \<lparr>LocalName = ''exit'', Insts = [InstValue ''sub'' ''3'' (IntType 32)],
                 Term = TermOther ''ret''\<rparr>]\<rparr>
     = map Itoa [0..<4]"
proof -
  let ?f = "\<lparr>GlobalName = ''f'', Params = [Param [] (IntType 32), Param ''x'' (IntType 32)],
      Blocks = [\<lparr>LocalName = [],
                 Insts = [InstOther ''store'', InstValue ''add'' [] (IntType 32)],
                 Term = TermOther ''ret''\<rparr>,
                \<lparr>LocalName = ''exit'', Insts = [InstValue ''sub'' ''3'' (IntType 32)],
                 Term = TermOther ''ret''\<rparr>]\<rparr>"
  let ?f' = "\<lparr>GlobalName = ''f'', Params = [Param ''0'' (IntType 32), Param ''x'' (IntType 32)],
      Blocks = [\<lparr>LocalName = ''1'',
                 Insts = [InstOther ''store'', InstValue ''add'' ''2'' (IntType 32)],
                 Term = TermOther ''ret''\<rparr>,
                \<lparr>LocalName = ''exit'', Insts = [InstValue ''sub'' ''3'' (IntType 32)],
                 Term = TermOther ''ret''\<rparr>]\<rparr>"
  have run: "AssignIDs ?f = Inr ?f'"
    by (simp add: AssignIDs_def assignTerm_def setName_def isUnnamed_def isLocalID_def
        Block_Name_def Block_SetName_def Itoa.simps digits_def)
  have blocks: "Blocks ?f \<noteq> []" by simp
  have len: "length (localIDs ?f') = 4"
    by (simp add: localIDs_def valueNames_def blockNames_def Inst_numbered_def
        Term_numbered_def Block_Name_def isLocalID_def digits_def)
  from local_id_packing [THEN conjunct2, of ?f ?f'] run blocks
  have "localIDs ?f' = map Itoa [0..<length (localIDs ?f')]" by blast
  with len have "localIDs ?f' = map Itoa [0..<4]" by simp
  with run show ?thesis by (rule_tac conjI)
qed

subsection \<open>Numeric names are checked\<close>

lemma setName_error:
  assumes "setName fn Name SetName id0 n = Inl err"
  shows "isLocalID (Name n) \<and> Itoa id0 \<noteq> Name n \<and> err = BadLocalID fn (Itoa id0) (Name n)"
proof (cases "isUnnamed (Name n)")
  case True
  with assms show ?thesis by (simp add: setName_def)
next
  case u: False
  show ?thesis
  proof (cases "isLocalID (Name n)")
    case True
    with u assms show ?thesis
      by (cases "Itoa id0 = Name n") (simp_all add: setName_def)
  next
    case False
    with u assms show ?thesis by (simp add: setName_def)
  qed
qed

lemma setName_bad_local_id:
  "setName fn Name SetName id0 n = Inl err \<Longrightarrow> bad_local_id fn (WithStack err)"
  by (auto dest!: setName_error simp: bad_local_id_def)

lemma assignParams_error:
  "assignParams fn id0 ps = Inl err \<Longrightarrow> bad_local_id fn err"
proof (induction ps arbitrary: id0)
  case Nil
  then show ?case by simp
next
  case (Cons p ps)
  then show ?case
    by (auto split: sum.splits prod.splits dest: setName_bad_local_id)
qed

lemma assignInsts_error:
  "assignInsts fn id0 is = Inl err \<Longrightarrow> bad_local_id fn err"
proof (induction "is" arbitrary: id0)
  case Nil
  then show ?case by simp
next
  case (Cons x xs)
  then show ?case
    by (auto split: sum.splits prod.splits if_splits dest: setName_bad_local_id)
qed

lemma assignTerm_error:
  "assignTerm fn id0 t = Inl err \<Longrightarrow> bad_local_id fn err"
  by (auto simp: assignTerm_def split: sum.splits prod.splits if_splits dest: setName_bad_local_id)

lemma assignBlocks_error:
  "assignBlocks fn id0 bs = Inl err \<Longrightarrow> bad_local_id fn err"
proof (induction bs arbitrary: id0)
  case Nil
  then show ?case by simp
next
  case (Cons b bs)
  then show ?case
    by (auto split: sum.splits prod.splits
        dest: setName_bad_local_id assignInsts_error assignTerm_error)
qed

subsection \<open>The assigner refines the numbering of the spec\<close>

lemma numberNames_append:
  "numberNames fn k (xs @ ys) =
     (case numberNames fn k xs of
        Inl err \<Rightarrow> Inl err
      | Inr (xs', k') \<Rightarrow>
          (case numberNames fn k' ys of
             Inl err \<Rightarrow> Inl err
           | Inr (ys', k'') \<Rightarrow> Inr (xs' @ ys', k'')))"
proof (induction xs arbitrary: k)
  case Nil
  show ?case by (simp split: sum.splits prod.splits)
next
  case (Cons x xs)
  show ?case
  proof (cases "isUnnamed x")
    case True
    then show ?thesis by (simp add: Cons.IH split: sum.splits prod.splits)
  next
    case u: False
    show ?thesis
    proof (cases "isLocalID x")
      case True
      with u show ?thesis
        by (cases "x = Itoa k") (simp_all add: Cons.IH split: sum.splits prod.splits)
    next
      case False
      with u show ?thesis by (simp add: Cons.IH split: sum.splits prod.splits)
    qed
  qed
qed

lemma numberNames_Cons:
  "numberNames fn k (x # ys) =
     (case numberNames fn k [x] of
        Inl err \<Rightarrow> Inl err
      | Inr (xs', k') \<Rightarrow>
          (case numberNames fn k' ys of
             Inl err \<Rightarrow> Inl err
           | Inr (ys', k'') \<Rightarrow> Inr (xs' @ ys', k'')))"
  using numberNames_append [of fn k "[x]" ys] by simp

lemma setName_numberNames:
  assumes law: "\<And>s. Name (SetName s n) = s"
  shows "numberNames fn k [Name n] =
     (case setName fn Name SetName k n of
        Inl err \<Rightarrow> Inl (WithStack err)
      | Inr (n', k') \<Rightarrow> Inr ([Name n'], k'))"
proof (cases "isUnnamed (Name n)")
  case True
  then show ?thesis by (simp add: setName_def law)
next
  case u: False
  show ?thesis
  proof (cases "isLocalID (Name n)")
    case True
    with u show ?thesis
      by (cases "Itoa k = Name n") (auto simp: setName_def)
  next
    case False
    with u show ?thesis by (simp add: setName_def)
  qed
qed


lemma assignParams_numberNames:
  "numberNames fn k (map Param_Name ps) =
     (case assignParams fn k ps of
        Inl err \<Rightarrow> Inl err
      | Inr (ps', k') \<Rightarrow> Inr (map Param_Name ps', k'))"
proof (induction ps arbitrary: k)
  case Nil
  show ?case by simp
next
  case (Cons p ps)
  have h: "numberNames fn k [Param_Name p] =
     (case setName fn Param_Name Param_SetName k p of
        Inl err \<Rightarrow> Inl (WithStack err)
      | Inr (n', k') \<Rightarrow> Inr ([Param_Name n'], k'))"
    by (rule setName_numberNames) (rule Param_Name_SetName)
  have "numberNames fn k (map Param_Name (p # ps)) =
     (case numberNames fn k [Param_Name p] of
        Inl err \<Rightarrow> Inl err
      | Inr (xs', k') \<Rightarrow>
          (case numberNames fn k' (map Param_Name ps) of
             Inl err \<Rightarrow> Inl err
           | Inr (ys', k'') \<Rightarrow> Inr (xs' @ ys', k'')))"
    unfolding list.map by (rule numberNames_Cons)
  also have "\<dots> = (case assignParams fn k (p # ps) of
        Inl err \<Rightarrow> Inl err
      | Inr (ps', k') \<Rightarrow> Inr (map Param_Name ps', k'))"
    unfolding h Cons.IH by (simp split: sum.splits prod.splits)
  finally show ?case .
qed

lemma Inst_numbered_SetName: "Inst_numbered (Inst_SetName s i) = Inst_numbered i"
  by (simp add: Inst_numbered_def Inst_SetName_kind)

lemma Term_numbered_SetName: "Term_numbered (Term_SetName s t) = Term_numbered t"
  by (simp add: Term_numbered_def Term_SetName_kind)

lemma setName_Inst_numbered:
  assumes "setName fn Inst_Name Inst_SetName k x = Inr (x', k')"
  shows "Inst_numbered x' = Inst_numbered x"
  using setName_result [OF assms] by (auto simp: Inst_numbered_SetName)

lemma setName_Term_numbered:
  assumes "setName fn Term_Name Term_SetName k x = Inr (x', k')"
  shows "Term_numbered x' = Term_numbered x"
  using setName_result [OF assms] by (auto simp: Term_numbered_SetName)

lemma assignInsts_numberNames:
  "numberNames fn k (map Inst_Name (filter Inst_numbered xs)) =
     (case assignInsts fn k xs of
        Inl err \<Rightarrow> Inl err
      | Inr (xs', k') \<Rightarrow> Inr (map Inst_Name (filter Inst_numbered xs'), k'))"
proof (induction xs arbitrary: k)
  case Nil
  show ?case by simp
next
  case (Cons x xs)
  show ?case
  proof (cases "Inst_numbered x")
    case False
    then have skip: "\<not> Inst_isNamed x \<or> isVoidValue (Inl x)"
      by (simp add: Inst_numbered_def)
    from False have "numberNames fn k (map Inst_Name (filter Inst_numbered (x # xs)))
        = numberNames fn k (map Inst_Name (filter Inst_numbered xs))"
      by simp
    also have "\<dots> = (case assignInsts fn k (x # xs) of
        Inl err \<Rightarrow> Inl err
      | Inr (xs', k') \<Rightarrow> Inr (map Inst_Name (filter Inst_numbered xs'), k'))"
      unfolding Cons.IH using skip False by (simp split: sum.splits prod.splits)
    finally show ?thesis .
  next
    case True
    then have noskip: "\<not> (\<not> Inst_isNamed x \<or> isVoidValue (Inl x))" and nm: "Inst_isNamed x"
      by (simp_all add: Inst_numbered_def)
    have h: "numberNames fn k [Inst_Name x] =
       (case setName fn Inst_Name Inst_SetName k x of
          Inl err \<Rightarrow> Inl (WithStack err)
        | Inr (n', k') \<Rightarrow> Inr ([Inst_Name n'], k'))"
      by (rule setName_numberNames) (rule Inst_Name_SetName [OF nm])
    from True have "numberNames fn k (map Inst_Name (filter Inst_numbered (x # xs))) =
       (case numberNames fn k [Inst_Name x] of
          Inl err \<Rightarrow> Inl err
        | Inr (xs', k') \<Rightarrow>
            (case numberNames fn k' (map Inst_Name (filter Inst_numbered xs)) of
               Inl err \<Rightarrow> Inl err
             | Inr (ys', k'') \<Rightarrow> Inr (xs' @ ys', k'')))"
      by (simp only: filter.simps if_True list.map numberNames_Cons [symmetric])
    also have "\<dots> = (case assignInsts fn k (x # xs) of
        Inl err \<Rightarrow> Inl err
      | Inr (xs', k') \<Rightarrow> Inr (map Inst_Name (filter Inst_numbered xs'), k'))"
      unfolding h Cons.IH using noskip True
      by (auto split: sum.splits prod.splits simp: setName_Inst_numbered)
    finally show ?thesis .
  qed
qed


lemma assignTerm_numberNames:
  "numberNames fn k (map Term_Name (filter Term_numbered [t])) =
     (case assignTerm fn k t of
        Inl err \<Rightarrow> Inl err
      | Inr (t', k') \<Rightarrow> Inr (map Term_Name (filter Term_numbered [t']), k'))"
proof (cases "Term_numbered t")
  case False
  then have "\<not> Term_isNamed t \<or> isVoidValue (Inr t)"
    by (simp add: Term_numbered_def)
  with False show ?thesis by (simp add: assignTerm_def)
next
  case True
  then have noskip: "\<not> (\<not> Term_isNamed t \<or> isVoidValue (Inr t))" and nm: "Term_isNamed t"
    by (simp_all add: Term_numbered_def)
  have h: "numberNames fn k [Term_Name t] =
     (case setName fn Term_Name Term_SetName k t of
        Inl err \<Rightarrow> Inl (WithStack err)
      | Inr (n', k') \<Rightarrow> Inr ([Term_Name n'], k'))"
    by (rule setName_numberNames) (rule Term_Name_SetName [OF nm])
  from True have "numberNames fn k (map Term_Name (filter Term_numbered [t]))
      = numberNames fn k [Term_Name t]"
    by simp
  also have "\<dots> = (case assignTerm fn k t of
        Inl err \<Rightarrow> Inl err
      | Inr (t', k') \<Rightarrow> Inr (map Term_Name (filter Term_numbered [t']), k'))"
    unfolding h using noskip True
    by (auto simp: assignTerm_def setName_Term_numbered split: sum.splits prod.splits)
  finally show ?thesis .
qed

lemma setName_block_fields:
  assumes "setName fn Block_Name Block_SetName k b = Inr (b', k')"
  shows "Insts b' = Insts b" and "Term b' = Term b"
  using setName_result [OF assms] by (auto simp: Block_SetName_def)

lemma assignBlocks_numberNames:
  "numberNames fn k (concat (map blockNames bs)) =
     (case assignBlocks fn k bs of
        Inl err \<Rightarrow> Inl err
      | Inr (bs', k') \<Rightarrow> Inr (concat (map blockNames bs'), k'))"
proof (induction bs arbitrary: k)
  case Nil
  show ?case by simp
next
  case (Cons b bs)
  let ?I = "\<lambda>xs. map Inst_Name (filter Inst_numbered xs)"
  let ?T = "\<lambda>t. map Term_Name (filter Term_numbered [t])"
  have h: "numberNames fn k [Block_Name b] =
     (case setName fn Block_Name Block_SetName k b of
        Inl err \<Rightarrow> Inl (WithStack err)
      | Inr (n', k') \<Rightarrow> Inr ([Block_Name n'], k'))"
    by (rule setName_numberNames) (rule Block_Name_SetName)
  have split: "concat (map blockNames (b # bs))
      = [Block_Name b] @ ?I (Insts b) @ ?T (Term b) @ concat (map blockNames bs)"
    by (simp add: blockNames_def)
  show ?case
  proof (cases "setName fn Block_Name Block_SetName k b")
    case (Inl err)
    then show ?thesis
      unfolding split by (simp only: numberNames_append h) simp
  next
    case (Inr r)
    then obtain b1 k1 where s: "setName fn Block_Name Block_SetName k b = Inr (b1, k1)"
      by (cases r) simp
    note fields = setName_block_fields [OF s]
    have names: "\<And>xs t. blockNames (b1\<lparr>Insts := xs, Term := t\<rparr>) = [Block_Name b1] @ ?I xs @ ?T t"
      by (simp add: blockNames_def Block_Name_def)
    have "numberNames fn k (concat (map blockNames (b # bs))) =
      (case numberNames fn k1 (?I (Insts b1)) of
         Inl err \<Rightarrow> Inl err
       | Inr (is', k2) \<Rightarrow>
          (case numberNames fn k2 (?T (Term b1)) of
             Inl err \<Rightarrow> Inl err
           | Inr (t', k3) \<Rightarrow>
              (case numberNames fn k3 (concat (map blockNames bs)) of
                 Inl err \<Rightarrow> Inl err
               | Inr (bs', k4) \<Rightarrow> Inr ([Block_Name b1] @ is' @ t' @ bs', k4))))"
      unfolding split fields
      by (simp only: numberNames_append h s) (simp split: sum.splits prod.splits)
    also have "\<dots> = (case assignBlocks fn k (b # bs) of
        Inl err \<Rightarrow> Inl err
      | Inr (bs', k') \<Rightarrow> Inr (concat (map blockNames bs'), k'))"
      unfolding assignInsts_numberNames assignTerm_numberNames Cons.IH
      by (simp add: s names split: sum.splits prod.splits)
    finally show ?thesis .
  qed
qed

lemma AssignIDs_loops:
  "numberNames (GlobalName f) 0 (valueNames f) =
     (case assignParams (GlobalName f) 0 (Params f) of
        Inl err \<Rightarrow> Inl err
      | Inr (ps', k1) \<Rightarrow>
          (case assignBlocks (GlobalName f) k1 (Blocks f) of
             Inl err \<Rightarrow> Inl err
           | Inr (bs', k2) \<Rightarrow> Inr (map Param_Name ps' @ concat (map blockNames bs'), k2)))"
  unfolding valueNames_def
  by (simp only: numberNames_append assignParams_numberNames assignBlocks_numberNames)
    (simp split: sum.splits prod.splits)

lemma AssignIDs_numberNames:
  assumes "Blocks f \<noteq> []"
  shows "case AssignIDs f of
        Inl err \<Rightarrow> numberNames (GlobalName f) 0 (valueNames f) = Inl err
      | Inr f' \<Rightarrow> (\<exists>k. numberNames (GlobalName f) 0 (valueNames f) = Inr (valueNames f', k))"
  using assms unfolding AssignIDs_loops
  by (auto simp: AssignIDs_def valueNames_def split: sum.splits prod.splits)

lemma numberNames_counter:
  "numberNames fn k names = Inr (names', k') \<Longrightarrow>
   k' = k + length (filter (\<lambda>name. isUnnamed name \<or> isLocalID name) names)"
proof (induction names arbitrary: k names')
  case Nil
  then show ?case by simp
next
  case (Cons x xs)
  show ?case
  proof (cases "isUnnamed x")
    case True
    with Cons.prems obtain ys where "numberNames fn (k + 1) xs = Inr (ys, k')"
      by (auto split: sum.splits prod.splits)
    from Cons.IH [OF this] True show ?thesis by simp
  next
    case u: False
    show ?thesis
    proof (cases "isLocalID x")
      case True
      with u Cons.prems obtain ys where "numberNames fn (k + 1) xs = Inr (ys, k')"
        by (auto split: sum.splits prod.splits if_splits)
      from Cons.IH [OF this] u True show ?thesis by simp
    next
      case False
      with u Cons.prems obtain ys where "numberNames fn k xs = Inr (ys, k')"
        by (auto split: sum.splits prod.splits)
      from Cons.IH [OF this] u False show ?thesis by simp
    qed
  qed
qed

lemma numberNames_at:
  assumes "numberNames fn 0 pre = Inr (pre', k)" and "isLocalID got"
  shows "numberNames fn 0 (pre @ got # post) =
     (if got = Itoa k then
        (case numberNames fn (k + 1) post of
           Inl err \<Rightarrow> Inl err
         | Inr (post', k') \<Rightarrow> Inr (pre' @ got # post', k'))
      else Inl (WithStack (BadLocalID fn (Itoa k) got)))"
proof -
  from assms(2) have "\<not> isUnnamed got" by (rule isLocalID_not_isUnnamed)
  with assms show ?thesis
    by (simp add: numberNames_append split: sum.splits prod.splits)
qed

subsection \<open>The check of numeric names\<close>

text \<open>
  C5: on an entity that carries a numeric name, \<^verbatim>\<open>setName\<close> compares the name with the
  decimal numeral of the counter: when they are equal the entity is left as it is and the
  counter advances by one; when they differ the result is the error with the function
  name, the expected ID and the actual ID. Every error \<^verbatim>\<open>AssignIDs\<close> returns is such an
  error, wrapped by \<^verbatim>\<open>errors.WithStack\<close>, and names the function it was called on.

  \<^verbatim>\<open>AssignIDs\<close> applies this check to every entity of its traversal. On a function with
  at least one block it fails exactly when the assigner of the spec (\<open>numberNames\<close>) fails
  on the names of the traversal, with the same error, and otherwise leaves the names that
  assigner computes. In particular, let \<open>got\<close> be the numeric name of a parameter, block,
  numbered instruction or numbered terminator, let \<open>pre\<close> be the names met before it, all
  accepted, and \<open>k\<close> the counter reached, which is the number of unnamed and numeric names
  in \<open>pre\<close>: when \<open>got\<close> differs from the numeral of \<open>k\<close>, \<^verbatim>\<open>AssignIDs\<close> returns
  \<open>BadLocalID\<close> with the name of the function, the numeral of \<open>k\<close> and \<open>got\<close>; when they
  are equal the name stays and the rest of the traversal is numbered from \<open>k + 1\<close>. The
  last four conjuncts say the same of each loop.
\<close>

theorem numeric_name_checked_against_counter:
  "(isLocalID (Name n) \<longrightarrow>
      setName fn Name SetName id0 n =
        (if Name n = Itoa id0 then Inr (n, id0 + 1)
         else Inl (BadLocalID fn (Itoa id0) (Name n))))
   \<and> (AssignIDs f = Inl err \<longrightarrow>
        (\<exists>want got. err = WithStack (BadLocalID (GlobalName f) want got)
           \<and> isLocalID got \<and> want \<noteq> got))
   \<and> (Blocks f \<noteq> [] \<longrightarrow>
        (case AssignIDs f of
           Inl err' \<Rightarrow> numberNames (GlobalName f) 0 (valueNames f) = Inl err'
         | Inr f' \<Rightarrow>
             (\<exists>k'. numberNames (GlobalName f) 0 (valueNames f) = Inr (valueNames f', k'))))
   \<and> (Blocks f \<noteq> [] \<and> valueNames f = pre @ got # post
        \<and> numberNames (GlobalName f) 0 pre = Inr (pre', k) \<and> isLocalID got \<longrightarrow>
        k = length (filter (\<lambda>name. isUnnamed name \<or> isLocalID name) pre)
        \<and> (got \<noteq> Itoa k \<longrightarrow>
             AssignIDs f = Inl (WithStack (BadLocalID (GlobalName f) (Itoa k) got)))
        \<and> (got = Itoa k \<longrightarrow>
             (case AssignIDs f of
                Inl err' \<Rightarrow> numberNames (GlobalName f) (k + 1) post = Inl err'
              | Inr f' \<Rightarrow>
                  (\<exists>post' k'. numberNames (GlobalName f) (k + 1) post = Inr (post', k')
                     \<and> valueNames f' = pre' @ got # post'))))
   \<and> (isLocalID (Param_Name param) \<longrightarrow>
        assignParams fn id0 (param # params) =
          (if Param_Name param = Itoa id0 then
             (case assignParams fn (id0 + 1) params of
                Inl err' \<Rightarrow> Inl err'
              | Inr (params', id1) \<Rightarrow> Inr (param # params', id1))
           else Inl (WithStack (BadLocalID fn (Itoa id0) (Param_Name param)))))
   \<and> (isLocalID (Block_Name block) \<longrightarrow>
        assignBlocks fn id0 (block # blocks) =
          (if Block_Name block = Itoa id0 then
             (case assignInsts fn (id0 + 1) (Insts block) of
                Inl err' \<Rightarrow> Inl err'
              | Inr (insts', id2) \<Rightarrow>
                  (case assignTerm fn id2 (Term block) of
                     Inl err' \<Rightarrow> Inl err'
                   | Inr (term', id3) \<Rightarrow>
                       (case assignBlocks fn id3 blocks of
                          Inl err' \<Rightarrow> Inl err'
                        | Inr (blocks', id4) \<Rightarrow>
                            Inr (block\<lparr>Insts := insts', Term := term'\<rparr> # blocks', id4))))
           else Inl (WithStack (BadLocalID fn (Itoa id0) (Block_Name block)))))
   \<and> (Inst_numbered inst \<and> isLocalID (Inst_Name inst) \<longrightarrow>
        assignInsts fn id0 (inst # insts) =
          (if Inst_Name inst = Itoa id0 then
             (case assignInsts fn (id0 + 1) insts of
                Inl err' \<Rightarrow> Inl err'
              | Inr (insts', id1) \<Rightarrow> Inr (inst # insts', id1))
           else Inl (WithStack (BadLocalID fn (Itoa id0) (Inst_Name inst)))))
   \<and> (Term_numbered term \<and> isLocalID (Term_Name term) \<longrightarrow>
        assignTerm fn id0 term =
          (if Term_Name term = Itoa id0 then Inr (term, id0 + 1)
           else Inl (WithStack (BadLocalID fn (Itoa id0) (Term_Name term)))))"
proof -
  have closure: "setName fn Name SetName id0 n =
        (if Name n = Itoa id0 then Inr (n, id0 + 1)
         else Inl (BadLocalID fn (Itoa id0) (Name n)))"
    if l: "isLocalID (Name n)" for Name :: "'n \<Rightarrow> string" and SetName n
  proof -
    from l have "\<not> isUnnamed (Name n)" by (rule isLocalID_not_isUnnamed)
    with l show ?thesis
      by (cases "Itoa id0 = Name n") (auto simp: setName_def)
  qed
  have shape: "\<exists>want got. err = WithStack (BadLocalID (GlobalName f) want got)
           \<and> isLocalID got \<and> want \<noteq> got" if e: "AssignIDs f = Inl err"
  proof -
    from e have "bad_local_id (GlobalName f) err"
      by (auto simp: AssignIDs_def split: if_splits sum.splits prod.splits
          dest: assignParams_error assignBlocks_error)
    then show ?thesis by (simp add: bad_local_id_def)
  qed
  have at: "k = length (filter (\<lambda>name. isUnnamed name \<or> isLocalID name) pre)
        \<and> (got \<noteq> Itoa k \<longrightarrow>
             AssignIDs f = Inl (WithStack (BadLocalID (GlobalName f) (Itoa k) got)))
        \<and> (got = Itoa k \<longrightarrow>
             (case AssignIDs f of
                Inl err' \<Rightarrow> numberNames (GlobalName f) (k + 1) post = Inl err'
              | Inr f' \<Rightarrow>
                  (\<exists>post' k'. numberNames (GlobalName f) (k + 1) post = Inr (post', k')
                     \<and> valueNames f' = pre' @ got # post')))"
    if b: "Blocks f \<noteq> []" and v: "valueNames f = pre @ got # post"
      and p: "numberNames (GlobalName f) 0 pre = Inr (pre', k)" and l: "isLocalID got"
  proof (intro conjI impI)
    from numberNames_counter [OF p]
    show "k = length (filter (\<lambda>name. isUnnamed name \<or> isLocalID name) pre)" by simp
    note spec = numberNames_at [OF p l, of post, folded v]
    note code = AssignIDs_numberNames [OF b]
    {
      assume "got \<noteq> Itoa k"
      with spec have "numberNames (GlobalName f) 0 (valueNames f)
          = Inl (WithStack (BadLocalID (GlobalName f) (Itoa k) got))"
        by simp
      with code show "AssignIDs f = Inl (WithStack (BadLocalID (GlobalName f) (Itoa k) got))"
        by (auto split: sum.splits)
    }
    {
      assume "got = Itoa k"
      with spec have "numberNames (GlobalName f) 0 (valueNames f)
          = (case numberNames (GlobalName f) (k + 1) post of
               Inl err \<Rightarrow> Inl err
             | Inr (post', k') \<Rightarrow> Inr (pre' @ got # post', k'))"
        by simp
      with code show "case AssignIDs f of
                Inl err' \<Rightarrow> numberNames (GlobalName f) (k + 1) post = Inl err'
              | Inr f' \<Rightarrow>
                  (\<exists>post' k'. numberNames (GlobalName f) (k + 1) post = Inr (post', k')
                     \<and> valueNames f' = pre' @ got # post')"
        by (auto split: sum.splits prod.splits)
    }
  qed
  have block: "assignBlocks fn id0 (block # blocks) =
          (if Block_Name block = Itoa id0 then
             (case assignInsts fn (id0 + 1) (Insts block) of
                Inl err' \<Rightarrow> Inl err'
              | Inr (insts', id2) \<Rightarrow>
                  (case assignTerm fn id2 (Term block) of
                     Inl err' \<Rightarrow> Inl err'
                   | Inr (term', id3) \<Rightarrow>
                       (case assignBlocks fn id3 blocks of
                          Inl err' \<Rightarrow> Inl err'
                        | Inr (blocks', id4) \<Rightarrow>
                            Inr (block\<lparr>Insts := insts', Term := term'\<rparr> # blocks', id4))))
           else Inl (WithStack (BadLocalID fn (Itoa id0) (Block_Name block))))"
    if "isLocalID (Block_Name block)"
    using closure [of Block_Name block Block_SetName, OF that] by simp
  have inst: "assignInsts fn id0 (inst # insts) =
          (if Inst_Name inst = Itoa id0 then
             (case assignInsts fn (id0 + 1) insts of
                Inl err' \<Rightarrow> Inl err'
              | Inr (insts', id1) \<Rightarrow> Inr (inst # insts', id1))
           else Inl (WithStack (BadLocalID fn (Itoa id0) (Inst_Name inst))))"
    if "Inst_numbered inst \<and> isLocalID (Inst_Name inst)"
    using closure [of Inst_Name inst Inst_SetName] that by (simp add: Inst_numbered_def)
  have "term": "assignTerm fn id0 term =
          (if Term_Name term = Itoa id0 then Inr (term, id0 + 1)
           else Inl (WithStack (BadLocalID fn (Itoa id0) (Term_Name term))))"
    if "Term_numbered term \<and> isLocalID (Term_Name term)"
    using closure [of Term_Name "term" Term_SetName] that
    by (simp add: Term_numbered_def assignTerm_def)
  have param: "assignParams fn id0 (param # params) =
          (if Param_Name param = Itoa id0 then
             (case assignParams fn (id0 + 1) params of
                Inl err' \<Rightarrow> Inl err'
              | Inr (params', id1) \<Rightarrow> Inr (param # params', id1))
           else Inl (WithStack (BadLocalID fn (Itoa id0) (Param_Name param))))"
    if "isLocalID (Param_Name param)"
    using closure [of Param_Name param Param_SetName, OF that] by simp
  show ?thesis
    apply (intro conjI)
    subgoal by (intro impI) (rule closure)
    subgoal by (intro impI) (rule shape)
    subgoal by (intro impI) (rule AssignIDs_numberNames)
    subgoal by (intro impI, elim conjE, rule at)
    subgoal by (intro impI) (rule param)
    subgoal by (intro impI) (rule block)
    subgoal by (intro impI) (rule inst)
    subgoal by (intro impI) (rule "term")
    done
qed


theorem numeric_name_checked_against_counter_witness:
  "setName ''f'' Param_Name Param_SetName 0 (Param ''5'' (IntType 32))
     = Inl (BadLocalID ''f'' ''0'' ''5'')
   \<and> setName ''f'' Param_Name Param_SetName 5 (Param ''5'' (IntType 32))
     = Inr (Param ''5'' (IntType 32), 6)
   \<and> AssignIDs \<lparr>GlobalName = ''f'', Params = [Param ''5'' (IntType 32)],
        Blocks = [\<lparr>LocalName = ''entry'', Insts = [], Term = TermOther ''ret''\<rparr>]\<rparr>
     = Inl (WithStack (BadLocalID ''f'' ''0'' ''5''))
   \<and> AssignIDs \<lparr>GlobalName = ''f'', Params = [Param [] (IntType 32)],
        Blocks = [\<lparr>LocalName = ''5'', Insts = [], Term = TermOther ''ret''\<rparr>]\<rparr>
     = Inl (WithStack (BadLocalID ''f'' ''1'' ''5''))
   \<and> AssignIDs \<lparr>GlobalName = ''f'', Params = [],
        Blocks = [\<lparr>LocalName = ''entry'',
                   Insts = [InstValue ''add'' ''0'' (IntType 32), InstValue ''sub'' ''7'' (IntType 32)],
                   Term = TermOther ''ret''\<rparr>]\<rparr>
     = Inl (WithStack (BadLocalID ''f'' ''1'' ''7''))
   \<and> AssignIDs \<lparr>GlobalName = ''f'', Params = [],
        Blocks = [\<lparr>LocalName = ''entry'', Insts = [], Term = TermInvoke ''3'' (IntType 32)\<rparr>]\<rparr>
     = Inl (WithStack (BadLocalID ''f'' ''0'' ''3''))"
proof -
  note names = valueNames_def blockNames_def Inst_numbered_def Term_numbered_def Block_Name_def
  note ids = isUnnamed_def isLocalID_def Itoa.simps digits_def
  have l: "isLocalID (Param_Name (Param ''5'' (IntType 32)))"
    by (simp add: isLocalID_def digits_def)
  have a: "setName ''f'' Param_Name Param_SetName 0 (Param ''5'' (IntType 32))
     = Inl (BadLocalID ''f'' ''0'' ''5'')"
    using numeric_name_checked_against_counter
      [where Name = Param_Name and n = "Param ''5'' (IntType 32)"
        and fn = "''f''" and SetName = Param_SetName and ?id0.0 = 0, THEN conjunct1] l
    by (simp add: Itoa.simps digits_def)
  have b: "setName ''f'' Param_Name Param_SetName 5 (Param ''5'' (IntType 32))
     = Inr (Param ''5'' (IntType 32), 6)"
    using numeric_name_checked_against_counter
      [where Name = Param_Name and n = "Param ''5'' (IntType 32)"
        and fn = "''f''" and SetName = Param_SetName and ?id0.0 = 5, THEN conjunct1] l
    by (simp add: Itoa.simps digits_def)
  let ?fp = "\<lparr>GlobalName = ''f'', Params = [Param ''5'' (IntType 32)],
        Blocks = [\<lparr>LocalName = ''entry'', Insts = [], Term = TermOther ''ret''\<rparr>]\<rparr>"
  have "Blocks ?fp \<noteq> [] \<and> valueNames ?fp = [] @ ''5'' # [''entry'']
      \<and> numberNames (GlobalName ?fp) 0 [] = Inr ([], 0) \<and> isLocalID ''5''"
    by (simp add: names ids)
  with numeric_name_checked_against_counter
      [where f = ?fp and pre = "[]" and got = "''5''" and post = "[''entry'']"
        and pre' = "[]" and k = 0,
        THEN conjunct2, THEN conjunct2, THEN conjunct2, THEN conjunct1]
  have c: "AssignIDs ?fp = Inl (WithStack (BadLocalID ''f'' ''0'' ''5''))"
    by (simp add: ids)
  let ?fb = "\<lparr>GlobalName = ''f'', Params = [Param [] (IntType 32)],
        Blocks = [\<lparr>LocalName = ''5'', Insts = [], Term = TermOther ''ret''\<rparr>]\<rparr>"
  have "Blocks ?fb \<noteq> [] \<and> valueNames ?fb = [[]] @ ''5'' # []
      \<and> numberNames (GlobalName ?fb) 0 [[]] = Inr ([''0''], 1) \<and> isLocalID ''5''"
    by (simp add: names ids)
  with numeric_name_checked_against_counter
      [where f = ?fb and pre = "[[]]" and got = "''5''" and post = "[]"
        and pre' = "[''0'']" and k = 1,
        THEN conjunct2, THEN conjunct2, THEN conjunct2, THEN conjunct1]
  have d: "AssignIDs ?fb = Inl (WithStack (BadLocalID ''f'' ''1'' ''5''))"
    by (simp add: ids)
  let ?fi = "\<lparr>GlobalName = ''f'', Params = [],
        Blocks = [\<lparr>LocalName = ''entry'',
                   Insts = [InstValue ''add'' ''0'' (IntType 32), InstValue ''sub'' ''7'' (IntType 32)],
                   Term = TermOther ''ret''\<rparr>]\<rparr>"
  have "Blocks ?fi \<noteq> [] \<and> valueNames ?fi = [''entry'', ''0''] @ ''7'' # []
      \<and> numberNames (GlobalName ?fi) 0 [''entry'', ''0''] = Inr ([''entry'', ''0''], 1)
      \<and> isLocalID ''7''"
    by (simp add: names ids)
  with numeric_name_checked_against_counter
      [where f = ?fi and pre = "[''entry'', ''0'']" and got = "''7''" and post = "[]"
        and pre' = "[''entry'', ''0'']" and k = 1,
        THEN conjunct2, THEN conjunct2, THEN conjunct2, THEN conjunct1]
  have e: "AssignIDs ?fi = Inl (WithStack (BadLocalID ''f'' ''1'' ''7''))"
    by (simp add: ids)
  let ?ft = "\<lparr>GlobalName = ''f'', Params = [],
        Blocks = [\<lparr>LocalName = ''entry'', Insts = [], Term = TermInvoke ''3'' (IntType 32)\<rparr>]\<rparr>"
  have "Blocks ?ft \<noteq> [] \<and> valueNames ?ft = [''entry''] @ ''3'' # []
      \<and> numberNames (GlobalName ?ft) 0 [''entry''] = Inr ([''entry''], 0)
      \<and> isLocalID ''3''"
    by (simp add: names ids)
  with numeric_name_checked_against_counter
      [where f = ?ft and pre = "[''entry'']" and got = "''3''" and post = "[]"
        and pre' = "[''entry'']" and k = 0,
        THEN conjunct2, THEN conjunct2, THEN conjunct2, THEN conjunct1]
  have f: "AssignIDs ?ft = Inl (WithStack (BadLocalID ''f'' ''0'' ''3''))"
    by (simp add: ids)
  from a b c d e f show ?thesis by simp
qed


subsection \<open>What is skipped\<close>














text \<open>
  The hypothesis of well-typedness cannot be dropped: the type switch of \<^verbatim>\<open>isVoidValue\<close>
  reads the type of calls and invokes only, so that a load of void type, if there were
  one, would be numbered.
\<close>

lemma other_named_void_numbered:
  "\<not> Inst_wellTyped (InstValue ''load'' [] VoidType)
   \<and> assignInsts ''f'' 0 [InstValue ''load'' [] VoidType]
     = Inr ([InstValue ''load'' ''0'' VoidType], 1)"
  by (simp add: setName_def isUnnamed_def Itoa.simps digits_def)




subsection \<open>Declarations\<close>

text \<open>
  C7: on a function with no basic block \<^verbatim>\<open>AssignIDs\<close> succeeds and returns the function
  as it is, the names of its parameters included.
\<close>

theorem AssignIDs_declaration_noop:
  assumes "length (Blocks f) = 0"
  shows "AssignIDs f = Inr f"
  using assms by (simp add: AssignIDs_def)

theorem AssignIDs_declaration_noop_witness:
  "length (Blocks \<lparr>GlobalName = ''g'', Params = [Param [] (IntType 32), Param ''7'' (IntType 8)],
      Blocks = []\<rparr>) = 0
   \<and> AssignIDs \<lparr>GlobalName = ''g'', Params = [Param [] (IntType 32), Param ''7'' (IntType 8)],
      Blocks = []\<rparr>
     = Inr \<lparr>GlobalName = ''g'', Params = [Param [] (IntType 32), Param ''7'' (IntType 8)],
      Blocks = []\<rparr>"
proof -
  have h: "length (Blocks \<lparr>GlobalName = ''g'',
      Params = [Param [] (IntType 32), Param ''7'' (IntType 8)], Blocks = []\<rparr>) = 0"
    by simp
  from h AssignIDs_declaration_noop [OF h] show ?thesis by (rule conjI)
qed


section \<open>Properties of the translation\<close>

subsection \<open>The loops of the assembler\<close>

lemma sort_range:
  assumes "is_range tbl ks"
  shows "sort ks = sorted_list_of_set (dom tbl)"
proof -
  from assms have "distinct ks" and "set ks = dom tbl" by (simp_all add: is_range_def)
  then show ?thesis
    by (metis distinct_remdups_id sorted_list_of_set_sort_remdups)
qed

lemma appendDefs_Inr:
  "appendDefs notFound tbl ks defs = Inr r \<Longrightarrow>
   set ks \<subseteq> dom tbl \<and> r = defs @ map (the \<circ> tbl) ks"
proof (induction ks arbitrary: defs)
  case Nil
  then show ?case by simp
next
  case (Cons k ks)
  from Cons.prems obtain d where d: "tbl k = Some d"
    and r: "appendDefs notFound tbl ks (defs @ [d]) = Inr r"
    by (auto split: option.splits)
  from Cons.IH [OF r] d show ?case by auto
qed

lemma appendGlobals_Inr:
  "appendGlobals tbl idents globals = Inr r \<Longrightarrow>
   set idents \<subseteq> dom tbl
   \<and> map IsGlobal r = map IsGlobal globals @ map (the \<circ> tbl) idents"
proof (induction idents arbitrary: globals)
  case Nil
  then show ?case by simp
next
  case (Cons k ks)
  from Cons.prems obtain d where d: "tbl k = Some (IsGlobal d)"
    and r: "appendGlobals tbl ks (globals @ [d]) = Inr r"
    by (auto split: option.splits GlobalValue.splits)
  from Cons.IH [OF r] d show ?case by auto
qed

lemma appendFuncs_Inr:
  "appendFuncs tbl idents funcs = Inr r \<Longrightarrow>
   set idents \<subseteq> dom tbl
   \<and> map IsFunction r = map IsFunction funcs @ map (the \<circ> tbl) idents"
proof (induction idents arbitrary: funcs)
  case Nil
  then show ?case by simp
next
  case (Cons k ks)
  from Cons.prems obtain d where d: "tbl k = Some (IsFunction d)"
    and r: "appendFuncs tbl ks (funcs @ [d]) = Inr r"
    by (auto split: option.splits GlobalValue.splits)
  from Cons.IH [OF r] d show ?case by auto
qed

lemma appendIndirectSymbols_Inr:
  "appendIndirectSymbols tbl idents (aliases, ifuncs) = Inr (aliases', ifuncs') \<Longrightarrow>
   set idents \<subseteq> dom tbl
   \<and> map IsAlias aliases' = map IsAlias aliases @ filter is_alias (map (the \<circ> tbl) idents)
   \<and> map IsIFunc ifuncs' = map IsIFunc ifuncs @ filter is_ifunc (map (the \<circ> tbl) idents)
   \<and> list_all (\<lambda>v. is_alias v \<or> is_ifunc v) (map (the \<circ> tbl) idents)"
proof (induction idents arbitrary: aliases ifuncs)
  case Nil
  then show ?case by simp
next
  case (Cons k ks)
  from Cons.prems obtain v where v: "tbl k = Some v" by (auto split: option.splits)
  show ?case
  proof (cases v)
    case (IsAlias a)
    with v Cons.prems
    have "appendIndirectSymbols tbl ks (aliases @ [a], ifuncs) = Inr (aliases', ifuncs')"
      by simp
    from Cons.IH [OF this] v IsAlias show ?thesis by auto
  next
    case (IsIFunc a)
    with v Cons.prems
    have "appendIndirectSymbols tbl ks (aliases, ifuncs @ [a]) = Inr (aliases', ifuncs')"
      by simp
    from Cons.IH [OF this] v IsIFunc show ?thesis by auto
  next
    case (IsGlobal a)
    with v Cons.prems show ?thesis by simp
  next
    case (IsFunction a)
    with v Cons.prems show ?thesis by simp
  next
    case (IsOther a)
    with v Cons.prems show ?thesis by simp
  qed
qed

lemma addDefsToModule_Inr:
  assumes "addDefsToModule it gen = Inr gen'"
  obtains typeDefs comdatDefs globals aliases ifuncs funcs attrGroupDefs
    namedMetadataDefs metadataDefs
  where "appendDefs UnableToLocateTypeIdentifier (new_typeDefs gen)
           (sort (range_typeDefs it)) (TypeDefs (m gen)) = Inr typeDefs"
    and "appendDefs UnableToLocateComdatName (new_comdatDefs gen)
           (sort (range_comdatDefs it)) (ComdatDefs (m gen)) = Inr comdatDefs"
    and "appendGlobals (new_globals gen) (old_globalOrder gen) (Globals (m gen)) = Inr globals"
    and "appendIndirectSymbols (new_globals gen) (old_indirectSymbolDefOrder gen)
           (Aliases (m gen), IFuncs (m gen)) = Inr (aliases, ifuncs)"
    and "appendFuncs (new_globals gen) (old_funcOrder gen) (Funcs (m gen)) = Inr funcs"
    and "appendDefs UnableToLocateAttrGroupID (new_attrGroupDefs gen)
           (sort (range_attrGroupDefs it)) (AttrGroupDefs (m gen)) = Inr attrGroupDefs"
    and "appendDefs UnableToLocateMetadataName (new_namedMetadataDefs gen)
           (old_namedMetadataDefOrder gen) (NamedMetadataDefs (m gen)) = Inr namedMetadataDefs"
    and "appendDefs UnableToLocateMetadataID (new_metadataDefs gen)
           (sort (range_metadataDefs it)) (MetadataDefs (m gen)) = Inr metadataDefs"
    and "gen' = gen\<lparr>m := (m gen)\<lparr>TypeDefs := typeDefs, ComdatDefs := comdatDefs,
                 Globals := globals, Aliases := aliases, IFuncs := ifuncs, Funcs := funcs,
                 AttrGroupDefs := attrGroupDefs, NamedMetadataDefs := namedMetadataDefs,
                 MetadataDefs := metadataDefs\<rparr>\<rparr>"
  using assms unfolding addDefsToModule_def Let_def
  by (simp split: sum.splits prod.splits)


subsection \<open>The order of the assembled module\<close>

text \<open>
  C1: when \<^verbatim>\<open>addDefsToModule\<close> returns, whatever the order in which the four maps were
  ranged over, it has appended to the lists of the module
  \<^item> the type definitions in ascending order of their names (the bytewise order of Go's
    strings, in which upper case comes before lower case), one per name of
    \<^verbatim>\<open>gen.old.typeDefs\<close> (\<open>sorted_list_of_set\<close> is the ascending list without repetition
    of the elements of a set), and likewise the comdat definitions, once;
  \<^item> the globals in the order of \<^verbatim>\<open>gen.old.globalOrder\<close>;
  \<^item> the aliases, and the ifuncs, each in the order they have in
    \<^verbatim>\<open>gen.old.indirectSymbolDefOrder\<close>;
  \<^item> the functions in the order of \<^verbatim>\<open>gen.old.funcOrder\<close>;
  \<^item> the attribute group definitions in ascending order of their IDs;
  \<^item> the named metadata definitions in the order of \<^verbatim>\<open>gen.old.namedMetadataDefOrder\<close>;
  \<^item> the metadata definitions in ascending order of their IDs;

  and every key was found in its table, so that each entry is the definition the table
  holds for the key. The recorded orders are the source orders the indexing phase noted.
\<close>

theorem addDefsToModule_order:
  assumes "valid_ranges it gen" and "addDefsToModule it gen = Inr gen'"
  shows "TypeDefs (m gen') = TypeDefs (m gen)
           @ map (the \<circ> new_typeDefs gen) (sorted_list_of_set (dom (old_typeDefs gen)))
    \<and> ComdatDefs (m gen') = ComdatDefs (m gen)
           @ map (the \<circ> new_comdatDefs gen) (sorted_list_of_set (dom (old_comdatDefs gen)))
    \<and> map IsGlobal (Globals (m gen')) = map IsGlobal (Globals (m gen))
           @ map (the \<circ> new_globals gen) (old_globalOrder gen)
    \<and> map IsAlias (Aliases (m gen')) = map IsAlias (Aliases (m gen))
           @ filter is_alias (map (the \<circ> new_globals gen) (old_indirectSymbolDefOrder gen))
    \<and> map IsIFunc (IFuncs (m gen')) = map IsIFunc (IFuncs (m gen))
           @ filter is_ifunc (map (the \<circ> new_globals gen) (old_indirectSymbolDefOrder gen))
    \<and> map IsFunction (Funcs (m gen')) = map IsFunction (Funcs (m gen))
           @ map (the \<circ> new_globals gen) (old_funcOrder gen)
    \<and> AttrGroupDefs (m gen') = AttrGroupDefs (m gen)
           @ map (the \<circ> new_attrGroupDefs gen) (sorted_list_of_set (dom (old_attrGroupDefs gen)))
    \<and> NamedMetadataDefs (m gen') = NamedMetadataDefs (m gen)
           @ map (the \<circ> new_namedMetadataDefs gen) (old_namedMetadataDefOrder gen)
    \<and> MetadataDefs (m gen') = MetadataDefs (m gen)
           @ map (the \<circ> new_metadataDefs gen) (sorted_list_of_set (dom (old_metadataDefs gen)))
    \<and> dom (old_typeDefs gen) \<subseteq> dom (new_typeDefs gen)
    \<and> dom (old_comdatDefs gen) \<subseteq> dom (new_comdatDefs gen)
    \<and> dom (old_attrGroupDefs gen) \<subseteq> dom (new_attrGroupDefs gen)
    \<and> dom (old_metadataDefs gen) \<subseteq> dom (new_metadataDefs gen)
    \<and> set (old_globalOrder gen) \<subseteq> dom (new_globals gen)
    \<and> set (old_indirectSymbolDefOrder gen) \<subseteq> dom (new_globals gen)
    \<and> set (old_funcOrder gen) \<subseteq> dom (new_globals gen)
    \<and> set (old_namedMetadataDefOrder gen) \<subseteq> dom (new_namedMetadataDefs gen)"
proof -
  from assms(1) have r: "is_range (old_typeDefs gen) (range_typeDefs it)"
    "is_range (old_comdatDefs gen) (range_comdatDefs it)"
    "is_range (old_attrGroupDefs gen) (range_attrGroupDefs it)"
    "is_range (old_metadataDefs gen) (range_metadataDefs it)"
    by (simp_all add: valid_ranges_def)
  have s: "sort (range_typeDefs it) = sorted_list_of_set (dom (old_typeDefs gen))"
    "sort (range_comdatDefs it) = sorted_list_of_set (dom (old_comdatDefs gen))"
    "sort (range_attrGroupDefs it) = sorted_list_of_set (dom (old_attrGroupDefs gen))"
    "sort (range_metadataDefs it) = sorted_list_of_set (dom (old_metadataDefs gen))"
    using r by (simp_all add: sort_range)
  have d0: "set (sort (range_typeDefs it)) = dom (old_typeDefs gen)"
    "set (sort (range_comdatDefs it)) = dom (old_comdatDefs gen)"
    "set (sort (range_attrGroupDefs it)) = dom (old_attrGroupDefs gen)"
    "set (sort (range_metadataDefs it)) = dom (old_metadataDefs gen)"
    using r by (simp_all add: is_range_def)
  note d = d0 [unfolded s]
  from assms(2) show ?thesis
  proof (rule addDefsToModule_Inr)
    fix typeDefs comdatDefs globals aliases ifuncs funcs attrGroupDefs
      namedMetadataDefs metadataDefs
    assume t: "appendDefs UnableToLocateTypeIdentifier (new_typeDefs gen)
           (sort (range_typeDefs it)) (TypeDefs (m gen)) = Inr typeDefs"
      and c: "appendDefs UnableToLocateComdatName (new_comdatDefs gen)
           (sort (range_comdatDefs it)) (ComdatDefs (m gen)) = Inr comdatDefs"
      and g: "appendGlobals (new_globals gen) (old_globalOrder gen) (Globals (m gen))
           = Inr globals"
      and i: "appendIndirectSymbols (new_globals gen) (old_indirectSymbolDefOrder gen)
           (Aliases (m gen), IFuncs (m gen)) = Inr (aliases, ifuncs)"
      and f: "appendFuncs (new_globals gen) (old_funcOrder gen) (Funcs (m gen)) = Inr funcs"
      and a: "appendDefs UnableToLocateAttrGroupID (new_attrGroupDefs gen)
           (sort (range_attrGroupDefs it)) (AttrGroupDefs (m gen)) = Inr attrGroupDefs"
      and n: "appendDefs UnableToLocateMetadataName (new_namedMetadataDefs gen)
           (old_namedMetadataDefOrder gen) (NamedMetadataDefs (m gen)) = Inr namedMetadataDefs"
      and md: "appendDefs UnableToLocateMetadataID (new_metadataDefs gen)
           (sort (range_metadataDefs it)) (MetadataDefs (m gen)) = Inr metadataDefs"
      and e: "gen' = gen\<lparr>m := (m gen)\<lparr>TypeDefs := typeDefs, ComdatDefs := comdatDefs,
                 Globals := globals, Aliases := aliases, IFuncs := ifuncs, Funcs := funcs,
                 AttrGroupDefs := attrGroupDefs, NamedMetadataDefs := namedMetadataDefs,
                 MetadataDefs := metadataDefs\<rparr>\<rparr>"
    note facts = appendDefs_Inr [OF t] appendDefs_Inr [OF c] appendGlobals_Inr [OF g]
      appendIndirectSymbols_Inr [OF i] appendFuncs_Inr [OF f] appendDefs_Inr [OF a]
      appendDefs_Inr [OF n] appendDefs_Inr [OF md]
    from facts show ?thesis
      unfolding e s d by simp
  qed
qed

theorem addDefsToModule_order_witness:
  "valid_ranges iteration1 example_generator
   \<and> addDefsToModule iteration1 example_generator
       = Inr (example_generator\<lparr>m := example_assembled\<rparr>)
   \<and> TypeDefs example_assembled
       = map (the \<circ> new_typeDefs example_generator) [''Pair'', ''node'']
   \<and> ComdatDefs example_assembled
       = map (the \<circ> new_comdatDefs example_generator) [''c1'', ''c2'']
   \<and> map IsAlias (Aliases example_assembled)
       = filter is_alias (map (the \<circ> new_globals example_generator) [''a2'', ''i1'', ''a1''])
   \<and> map IsIFunc (IFuncs example_assembled)
       = filter is_ifunc (map (the \<circ> new_globals example_generator) [''a2'', ''i1'', ''a1''])
   \<and> AttrGroupDefs example_assembled
       = map (the \<circ> new_attrGroupDefs example_generator) [0, 1]
   \<and> MetadataDefs example_assembled
       = map (the \<circ> new_metadataDefs example_generator) [0, 1, 2]"
proof -
  have v: "valid_ranges iteration1 example_generator"
    by (auto simp: valid_ranges_def is_range_def iteration1_def example_generator_def)
  have r: "addDefsToModule iteration1 example_generator
      = Inr (example_generator\<lparr>m := example_assembled\<rparr>)"
    by (simp add: addDefsToModule_def iteration1_def example_generator_def example_module_def
        example_assembled_def)
  have k: "sorted_list_of_set (dom (old_typeDefs example_generator)) = [''Pair'', ''node'']"
    "sorted_list_of_set (dom (old_comdatDefs example_generator)) = [''c1'', ''c2'']"
    "sorted_list_of_set (dom (old_attrGroupDefs example_generator)) = [0, 1]"
    "sorted_list_of_set (dom (old_metadataDefs example_generator)) = [0, 1, 2]"
    "old_indirectSymbolDefOrder example_generator = [''a2'', ''i1'', ''a1'']"
    by (simp_all add: example_generator_def)
  have e: "TypeDefs (m example_generator) = []" "ComdatDefs (m example_generator) = []"
    "Aliases (m example_generator) = []" "IFuncs (m example_generator) = []"
    "AttrGroupDefs (m example_generator) = []" "MetadataDefs (m example_generator) = []"
    by (simp_all add: example_generator_def example_module_def)
  from addDefsToModule_order [OF v r] v r show ?thesis
    unfolding k e by simp
qed

subsection \<open>Determinism\<close>

lemma example_before_assembly:
  "run_phases (phase_list example_phases old) (newGenerator example_phases) = Inr example_generator"
  by (simp add: phase_list_def withStack_def example_phases_def)
    (simp add: example_generator_def)

lemma addDefsToModule_ranges:
  assumes "valid_ranges it1 gen" and "valid_ranges it2 gen"
  shows "addDefsToModule it1 gen = addDefsToModule it2 gen"
proof -
  from assms have eqs: "sort (range_typeDefs it1) = sort (range_typeDefs it2)"
    "sort (range_comdatDefs it1) = sort (range_comdatDefs it2)"
    "sort (range_attrGroupDefs it1) = sort (range_attrGroupDefs it2)"
    "sort (range_metadataDefs it1) = sort (range_metadataDefs it2)"
    by (auto simp: valid_ranges_def dest!: sort_range)
  show ?thesis unfolding addDefsToModule_def eqs by (rule refl)
qed

lemma translate_run_phases:
  "translate ph it old =
     (case run_phases (phase_list ph old) (newGenerator ph) of
        Inl err \<Rightarrow> Inr (None, Some err)
      | Inr gen \<Rightarrow>
          (case addDefsToModule it gen of
             Inl p \<Rightarrow> Inl p
           | Inr gen' \<Rightarrow> Inr (Some (m gen'), None)))"
  by (simp add: translate_def phase_list_def withStack_def split: sum.splits)

text \<open>
  C8: two runs of \<^verbatim>\<open>translate\<close> on the same input give the same result, a module, an
  error or a panic, whatever the orders \<open>it1\<close> and \<open>it2\<close> in which the two runs range over
  the maps in phase 8. The phases 1 to 7 are functions of the generator here, and
  \<^verbatim>\<open>translate\<close> runs them one after the other, without goroutines.
\<close>

theorem translate_deterministic:
  assumes "\<forall>gen. run_phases (phase_list ph old) (newGenerator ph) = Inr gen \<longrightarrow>
             valid_ranges it1 gen \<and> valid_ranges it2 gen"
  shows "translate ph it1 old = translate ph it2 old"
proof (cases "run_phases (phase_list ph old) (newGenerator ph)")
  case (Inl err)
  then show ?thesis by (simp add: translate_run_phases)
next
  case (Inr gen)
  with assms have "valid_ranges it1 gen" and "valid_ranges it2 gen" by simp_all
  then have "addDefsToModule it1 gen = addDefsToModule it2 gen"
    by (rule addDefsToModule_ranges)
  with Inr show ?thesis by (simp add: translate_run_phases)
qed

theorem translate_deterministic_witness:
  "translate example_phases iteration1 ''; module'' = translate example_phases iteration2 ''; module''
   \<and> translate example_phases iteration1 ''; module'' = Inr (Some example_assembled, None)
   \<and> range_typeDefs iteration1 \<noteq> range_typeDefs iteration2"
proof -
  have v1: "valid_ranges iteration1 example_generator"
    by (auto simp: valid_ranges_def is_range_def iteration1_def example_generator_def)
  have v2: "valid_ranges iteration2 example_generator"
    by (auto simp: valid_ranges_def is_range_def iteration2_def example_generator_def)
  have b: "run_phases (phase_list example_phases ''; module'') (newGenerator example_phases)
      = Inr example_generator"
    by (rule example_before_assembly)
  from v1 v2 b have h: "\<forall>gen. run_phases (phase_list example_phases ''; module'')
      (newGenerator example_phases) = Inr gen \<longrightarrow>
        valid_ranges iteration1 gen \<and> valid_ranges iteration2 gen"
    by simp
  have r: "addDefsToModule iteration1 example_generator
      = Inr (example_generator\<lparr>m := example_assembled\<rparr>)"
    by (simp add: addDefsToModule_def iteration1_def example_generator_def example_module_def
        example_assembled_def)
  have t: "translate example_phases iteration1 ''; module'' = Inr (Some example_assembled, None)"
    by (simp add: translate_run_phases b r)
  have d: "range_typeDefs iteration1 \<noteq> range_typeDefs iteration2"
    by (simp add: iteration1_def iteration2_def)
  from translate_deterministic [OF h] t d show ?thesis by simp
qed

subsection \<open>The first error ends the translation\<close>

lemma run_phases_append:
  "run_phases (ps @ qs) s =
     (case run_phases ps s of Inl err \<Rightarrow> Inl err | Inr s' \<Rightarrow> run_phases qs s')"
  by (induction ps arbitrary: s) (auto split: sum.splits)

lemma run_phases_first_error:
  "run_phases ps s = Inl err \<Longrightarrow>
   \<exists>k s'. k < length ps \<and> run_phases (take k ps) s = Inr s' \<and> (ps ! k) s' = Inl err"
proof (induction ps arbitrary: s)
  case Nil
  then show ?case by simp
next
  case (Cons p ps)
  show ?case
  proof (cases "p s")
    case (Inl e)
    with Cons.prems have "run_phases (take 0 (p # ps)) s = Inr s \<and> ((p # ps) ! 0) s = Inl err"
      by simp
    then show ?thesis by blast
  next
    case (Inr s1)
    with Cons.prems have "run_phases ps s1 = Inl err" by simp
    from Cons.IH [OF this] obtain k s' where
      "k < length ps" "run_phases (take k ps) s1 = Inr s'" "(ps ! k) s' = Inl err"
      by blast
    with Inr have "Suc k < length (p # ps) \<and> run_phases (take (Suc k) (p # ps)) s = Inr s'
      \<and> ((p # ps) ! Suc k) s' = Inl err"
      by simp
    then show ?thesis by blast
  qed
qed

lemma run_phases_stops:
  assumes "k < length ps" and "run_phases (take k ps) s = Inr s'" and "(ps ! k) s' = Inl err"
  shows "run_phases ps s = Inl err"
proof -
  from assms(1) have "ps = take k ps @ (ps ! k) # drop (Suc k) ps"
    by (simp add: id_take_nth_drop)
  then have "run_phases ps s = run_phases (take k ps @ (ps ! k) # drop (Suc k) ps) s"
    by simp
  also have "\<dots> = Inl err"
    using assms(2,3) by (simp add: run_phases_append)
  finally show ?thesis .
qed

lemma run_phases_prefix:
  assumes "k < length ps" and "run_phases (take k ps) s = Inr s'" and "(ps ! k) s' = Inl err"
    and "take (Suc k) qs = take (Suc k) ps"
  shows "run_phases qs s = Inl err"
proof -
  from assms(1,4) have kq: "k < length qs"
    by (metis Suc_leI length_take lessI less_le_trans min.absorb2 min.cobounded1 not_le)
  from assms(4) have "take k qs = take k ps"
    by (metis min.absorb1 le_add2 plus_1_eq_Suc take_take)
  moreover from assms(1,4) kq have "qs ! k = ps ! k"
    by (metis lessI nth_take)
  ultimately show ?thesis using assms(2,3) kq by (intro run_phases_stops [of k]) simp_all
qed

lemma translateUseListOrders_steps:
  "translateUseListOrders ph directives gen
     = run_phases (map (useListOrder_step ph) directives) gen"
  by (induction directives arbitrary: gen)
    (simp_all add: useListOrder_step_def split: sum.splits)

lemma translateUseListOrderBBs_steps:
  "translateUseListOrderBBs ph directives gen
     = run_phases (map (useListOrderBB_step ph) directives) gen"
  by (induction directives arbitrary: gen)
    (simp_all add: useListOrderBB_step_def split: sum.splits)

lemma fixBlockAddressConsts_steps:
  "fixBlockAddressConsts ph cs gen = run_phases (map (blockAddress_step ph) cs) gen"
  by (induction cs arbitrary: gen)
    (simp_all add: blockAddress_step_def split: sum.splits)

lemma phase_list_directive_phases: "phase_list ph old = directive_phases ph old"
  by (simp add: phase_list_def directive_phases_def translateUseListOrders_steps
      translateUseListOrderBBs_steps fixBlockAddressConsts_steps)

lemma translate_directive_phases:
  "translate ph it old =
     (case run_phases (directive_phases ph old) (newGenerator ph) of
        Inl err \<Rightarrow> Inr (None, Some err)
      | Inr gen \<Rightarrow>
          (case addDefsToModule it gen of
             Inl p \<Rightarrow> Inl p
           | Inr gen' \<Rightarrow> Inr (Some (m gen'), None)))"
  by (simp add: translate_run_phases phase_list_directive_phases)

lemma step_fails_in_list:
  assumes "k < length xs" and "run_phases (map step (take k xs)) s = Inr s'"
    and "step (xs ! k) s' = Inl err"
  shows "run_phases (map step xs) s = Inl err"
proof (rule run_phases_stops [of k])
  from assms(1) show "k < length (map step xs)" by simp
  from assms(2) show "run_phases (take k (map step xs)) s = Inr s'" by (simp add: take_map)
  from assms(1,3) show "(map step xs ! k) s' = Inl err" by simp
qed

lemma translate_fails_in_phase:
  assumes "k < length (directive_phases ph old)"
    and "run_phases (take k (directive_phases ph old)) (newGenerator ph) = Inr gen"
    and "(directive_phases ph old ! k) gen = Inl err"
  shows "translate ph it old = Inr (None, Some err)"
proof -
  from assms have "run_phases (directive_phases ph old) (newGenerator ph) = Inl err"
    by (rule run_phases_stops)
  then show ?thesis by (simp add: translate_directive_phases)
qed

lemma translate_fails_in_directive:
  assumes "run_phases (take 5 (directive_phases ph old)) (newGenerator ph) = Inr gen"
    and "k < length (old_useListOrders gen)"
    and "run_phases (map (useListOrder_step ph) (take k (old_useListOrders gen))) gen = Inr g"
    and "irUseListOrder ph g (old_useListOrders gen ! k) = Inl err"
  shows "translate ph it old = Inr (None, Some (WithStack err))"
proof (rule translate_fails_in_phase [of 5])
  show "5 < length (directive_phases ph old)" by (simp add: directive_phases_def)
  show "run_phases (take 5 (directive_phases ph old)) (newGenerator ph) = Inr gen" by fact
  from assms(4) have "useListOrder_step ph (old_useListOrders gen ! k) g = Inl (WithStack err)"
    by (simp add: useListOrder_step_def)
  with assms(2,3)
  have "run_phases (map (useListOrder_step ph) (old_useListOrders gen)) gen = Inl (WithStack err)"
    by (rule step_fails_in_list)
  then show "(directive_phases ph old ! 5) gen = Inl (WithStack err)"
    by (simp add: directive_phases_def)
qed

lemma translate_fails_in_directiveBB:
  assumes "run_phases (take 6 (directive_phases ph old)) (newGenerator ph) = Inr gen"
    and "k < length (old_useListOrderBBs gen)"
    and "run_phases (map (useListOrderBB_step ph) (take k (old_useListOrderBBs gen))) gen = Inr g"
    and "irUseListOrderBB ph g (old_useListOrderBBs gen ! k) = Inl err"
  shows "translate ph it old = Inr (None, Some (WithStack err))"
proof (rule translate_fails_in_phase [of 6])
  show "6 < length (directive_phases ph old)" by (simp add: directive_phases_def)
  show "run_phases (take 6 (directive_phases ph old)) (newGenerator ph) = Inr gen" by fact
  from assms(4) have "useListOrderBB_step ph (old_useListOrderBBs gen ! k) g = Inl (WithStack err)"
    by (simp add: useListOrderBB_step_def)
  with assms(2,3)
  have "run_phases (map (useListOrderBB_step ph) (old_useListOrderBBs gen)) gen
      = Inl (WithStack err)"
    by (rule step_fails_in_list)
  then show "(directive_phases ph old ! 6) gen = Inl (WithStack err)"
    by (simp add: directive_phases_def)
qed

lemma translate_fails_in_fixup:
  assumes "run_phases (take 7 (directive_phases ph old)) (newGenerator ph) = Inr gen"
    and "k < length (todo gen)"
    and "run_phases (map (blockAddress_step ph) (take k (todo gen))) gen = Inr g"
    and "fixBlockAddressConst ph (todo gen ! k) g = Inl err"
  shows "translate ph it old = Inr (None, Some (WithStack err))"
proof (rule translate_fails_in_phase [of 7])
  show "7 < length (directive_phases ph old)" by (simp add: directive_phases_def)
  show "run_phases (take 7 (directive_phases ph old)) (newGenerator ph) = Inr gen" by fact
  from assms(4) have "blockAddress_step ph (todo gen ! k) g = Inl (WithStack err)"
    by (simp add: blockAddress_step_def)
  with assms(2,3)
  have "run_phases (map (blockAddress_step ph) (todo gen)) gen = Inl (WithStack err)"
    by (rule step_fails_in_list)
  then show "(directive_phases ph old ! 7) gen = Inl (WithStack err)"
    by (simp add: directive_phases_def)
qed


text \<open>
  C2: \<^verbatim>\<open>translate\<close> is the run of the phases 1 to 7 in order followed by phase 8, where
  the phases 5, 6 and 7 are themselves runs of one step per directive or pending
  constant (\<open>directive_phases\<close>).
  \<^item> When a phase fails after all the phases before it have succeeded, \<^verbatim>\<open>translate\<close>
    returns a nil module together with the error of that phase, wrapped; the result is
    the same for any other behaviour of the later phases and of phase 8, which are not
    run.
  \<^item> An error that \<^verbatim>\<open>translate\<close> returns is the error of the first phase that failed.
  \<^item> When all seven phases succeed, \<^verbatim>\<open>translate\<close> returns the module assembled by phase
    8 with a nil error, unless phase 8 panics.
  \<^item> Whenever \<^verbatim>\<open>translate\<close> returns, either the module or the error is nil, never both
    and never neither.
  \<^item> Phase by phase: an error of \<^verbatim>\<open>indexTopLevelEntities\<close>, and after its success an
    error of \<^verbatim>\<open>resolveTypeDefs\<close>, and so on up to \<^verbatim>\<open>translateTopLevelEntities\<close>, is
    returned wrapped with a nil module.
  \<^item> Inside the loops: when the phases 1 to 4b have succeeded and the first \<open>i\<close> use-list
    order directives have been translated and attached, an error of \<^verbatim>\<open>irUseListOrder\<close>
    on the next directive is returned wrapped with a nil module, and the directives after
    it are not translated; likewise for \<^verbatim>\<open>irUseListOrderBB\<close> in phase 6 and for
    \<^verbatim>\<open>fixBlockAddressConst\<close> on the constants of \<^verbatim>\<open>gen.todo\<close> in phase 7.
\<close>

theorem translate_first_error:
  "(case run_phases (directive_phases ph old) (newGenerator ph) of
      Inl err \<Rightarrow> translate ph it old = Inr (None, Some err)
    | Inr gen \<Rightarrow>
        (case addDefsToModule it gen of
           Inl p \<Rightarrow> translate ph it old = Inl p
         | Inr gen' \<Rightarrow> translate ph it old = Inr (Some (m gen'), None)))
   \<and> (\<forall>k gen err.
        k < length (directive_phases ph old)
        \<and> run_phases (take k (directive_phases ph old)) (newGenerator ph) = Inr gen
        \<and> (directive_phases ph old ! k) gen = Inl err
        \<longrightarrow> translate ph it old = Inr (None, Some err)
          \<and> (\<forall>ph' it'. newGenerator ph' = newGenerator ph
                \<and> take (Suc k) (directive_phases ph' old) = take (Suc k) (directive_phases ph old)
                \<longrightarrow> translate ph' it' old = Inr (None, Some err)))
   \<and> (\<forall>err. translate ph it old = Inr (None, Some err) \<longrightarrow>
        (\<exists>k gen. k < length (directive_phases ph old)
           \<and> run_phases (take k (directive_phases ph old)) (newGenerator ph) = Inr gen
           \<and> (directive_phases ph old ! k) gen = Inl err))
   \<and> (\<forall>r. translate ph it old = Inr r \<longrightarrow>
        (\<exists>md. r = (Some md, None)) \<or> (\<exists>err. r = (None, Some err)))
   \<and> phase_list ph old = directive_phases ph old
   \<and> (indexTopLevelEntities ph old (newGenerator ph) = Inl e1 \<longrightarrow>
        translate ph it old = Inr (None, Some (WithStack e1)))
   \<and> (indexTopLevelEntities ph old (newGenerator ph) = Inr g1 \<longrightarrow>
        (resolveTypeDefs ph g1 = Inl e2 \<longrightarrow>
           translate ph it old = Inr (None, Some (WithStack e2)))
        \<and> (resolveTypeDefs ph g1 = Inr g2 \<longrightarrow>
           (translateComdatDefs ph g2 = Inl e3 \<longrightarrow>
              translate ph it old = Inr (None, Some (WithStack e3)))
           \<and> (translateComdatDefs ph g2 = Inr g3 \<longrightarrow>
              (createTopLevelEntities ph g3 = Inl e4 \<longrightarrow>
                 translate ph it old = Inr (None, Some (WithStack e4)))
              \<and> (createTopLevelEntities ph g3 = Inr g4 \<longrightarrow>
                 (translateTopLevelEntities ph g4 = Inl e5 \<longrightarrow>
                    translate ph it old = Inr (None, Some (WithStack e5)))
                 \<and> (translateTopLevelEntities ph g4 = Inr g5 \<longrightarrow>
                    run_phases (take 5 (directive_phases ph old)) (newGenerator ph) = Inr g5)))))
   \<and> (run_phases (take 5 (directive_phases ph old)) (newGenerator ph) = Inr gen5
        \<and> i < length (old_useListOrders gen5)
        \<and> run_phases (map (useListOrder_step ph) (take i (old_useListOrders gen5))) gen5 = Inr gi
        \<and> irUseListOrder ph gi (old_useListOrders gen5 ! i) = Inl e6
        \<longrightarrow> translate ph it old = Inr (None, Some (WithStack e6)))
   \<and> (run_phases (take 6 (directive_phases ph old)) (newGenerator ph) = Inr gen6
        \<and> j < length (old_useListOrderBBs gen6)
        \<and> run_phases (map (useListOrderBB_step ph) (take j (old_useListOrderBBs gen6))) gen6 = Inr gj
        \<and> irUseListOrderBB ph gj (old_useListOrderBBs gen6 ! j) = Inl e7
        \<longrightarrow> translate ph it old = Inr (None, Some (WithStack e7)))
   \<and> (run_phases (take 7 (directive_phases ph old)) (newGenerator ph) = Inr gen7
        \<and> l < length (todo gen7)
        \<and> run_phases (map (blockAddress_step ph) (take l (todo gen7))) gen7 = Inr gl
        \<and> fixBlockAddressConst ph (todo gen7 ! l) gl = Inl e8
        \<longrightarrow> translate ph it old = Inr (None, Some (WithStack e8)))"
proof (intro conjI)
  show "case run_phases (directive_phases ph old) (newGenerator ph) of
      Inl err \<Rightarrow> translate ph it old = Inr (None, Some err)
    | Inr gen \<Rightarrow>
        (case addDefsToModule it gen of
           Inl p \<Rightarrow> translate ph it old = Inl p
         | Inr gen' \<Rightarrow> translate ph it old = Inr (Some (m gen'), None))"
    by (simp add: translate_directive_phases split: sum.splits)
next
  show "\<forall>k gen err.
        k < length (directive_phases ph old)
        \<and> run_phases (take k (directive_phases ph old)) (newGenerator ph) = Inr gen
        \<and> (directive_phases ph old ! k) gen = Inl err
        \<longrightarrow> translate ph it old = Inr (None, Some err)
          \<and> (\<forall>ph' it'. newGenerator ph' = newGenerator ph
                \<and> take (Suc k) (directive_phases ph' old) = take (Suc k) (directive_phases ph old)
                \<longrightarrow> translate ph' it' old = Inr (None, Some err))"
  proof (intro allI impI conjI)
    fix k gen err
    assume a: "k < length (directive_phases ph old)
        \<and> run_phases (take k (directive_phases ph old)) (newGenerator ph) = Inr gen
        \<and> (directive_phases ph old ! k) gen = Inl err"
    then show "translate ph it old = Inr (None, Some err)"
      by (blast intro: translate_fails_in_phase)
    fix ph' :: "('a, 'b) phases" and it'
    assume b: "newGenerator ph' = newGenerator ph
        \<and> take (Suc k) (directive_phases ph' old) = take (Suc k) (directive_phases ph old)"
    with a have "run_phases (directive_phases ph' old) (newGenerator ph) = Inl err"
      by (blast intro: run_phases_prefix)
    with b have "run_phases (directive_phases ph' old) (newGenerator ph') = Inl err"
      by simp
    then show "translate ph' it' old = Inr (None, Some err)"
      by (simp add: translate_directive_phases)
  qed
next
  show "\<forall>err. translate ph it old = Inr (None, Some err) \<longrightarrow>
        (\<exists>k gen. k < length (directive_phases ph old)
           \<and> run_phases (take k (directive_phases ph old)) (newGenerator ph) = Inr gen
           \<and> (directive_phases ph old ! k) gen = Inl err)"
  proof (intro allI impI)
    fix err
    assume "translate ph it old = Inr (None, Some err)"
    then have "run_phases (directive_phases ph old) (newGenerator ph) = Inl err"
      by (auto simp: translate_directive_phases split: sum.splits)
    from run_phases_first_error [OF this]
    show "\<exists>k gen. k < length (directive_phases ph old)
           \<and> run_phases (take k (directive_phases ph old)) (newGenerator ph) = Inr gen
           \<and> (directive_phases ph old ! k) gen = Inl err"
      by blast
  qed
next
  show "\<forall>r. translate ph it old = Inr r \<longrightarrow>
        (\<exists>md. r = (Some md, None)) \<or> (\<exists>err. r = (None, Some err))"
    by (auto simp: translate_directive_phases split: sum.splits)
next
  show "phase_list ph old = directive_phases ph old"
    by (rule phase_list_directive_phases)
next
  show "indexTopLevelEntities ph old (newGenerator ph) = Inl e1 \<longrightarrow>
        translate ph it old = Inr (None, Some (WithStack e1))"
    by (simp add: translate_def)
next
  show "indexTopLevelEntities ph old (newGenerator ph) = Inr g1 \<longrightarrow>
        (resolveTypeDefs ph g1 = Inl e2 \<longrightarrow>
           translate ph it old = Inr (None, Some (WithStack e2)))
        \<and> (resolveTypeDefs ph g1 = Inr g2 \<longrightarrow>
           (translateComdatDefs ph g2 = Inl e3 \<longrightarrow>
              translate ph it old = Inr (None, Some (WithStack e3)))
           \<and> (translateComdatDefs ph g2 = Inr g3 \<longrightarrow>
              (createTopLevelEntities ph g3 = Inl e4 \<longrightarrow>
                 translate ph it old = Inr (None, Some (WithStack e4)))
              \<and> (createTopLevelEntities ph g3 = Inr g4 \<longrightarrow>
                 (translateTopLevelEntities ph g4 = Inl e5 \<longrightarrow>
                    translate ph it old = Inr (None, Some (WithStack e5)))
                 \<and> (translateTopLevelEntities ph g4 = Inr g5 \<longrightarrow>
                    run_phases (take 5 (directive_phases ph old)) (newGenerator ph) = Inr g5))))"
    by (simp add: translate_def directive_phases_def withStack_def)
next
  show "run_phases (take 5 (directive_phases ph old)) (newGenerator ph) = Inr gen5
        \<and> i < length (old_useListOrders gen5)
        \<and> run_phases (map (useListOrder_step ph) (take i (old_useListOrders gen5))) gen5 = Inr gi
        \<and> irUseListOrder ph gi (old_useListOrders gen5 ! i) = Inl e6
        \<longrightarrow> translate ph it old = Inr (None, Some (WithStack e6))"
    by (blast intro: translate_fails_in_directive)
next
  show "run_phases (take 6 (directive_phases ph old)) (newGenerator ph) = Inr gen6
        \<and> j < length (old_useListOrderBBs gen6)
        \<and> run_phases (map (useListOrderBB_step ph) (take j (old_useListOrderBBs gen6))) gen6 = Inr gj
        \<and> irUseListOrderBB ph gj (old_useListOrderBBs gen6 ! j) = Inl e7
        \<longrightarrow> translate ph it old = Inr (None, Some (WithStack e7))"
    by (blast intro: translate_fails_in_directiveBB)
next
  show "run_phases (take 7 (directive_phases ph old)) (newGenerator ph) = Inr gen7
        \<and> l < length (todo gen7)
        \<and> run_phases (map (blockAddress_step ph) (take l (todo gen7))) gen7 = Inr gl
        \<and> fixBlockAddressConst ph (todo gen7 ! l) gl = Inl e8
        \<longrightarrow> translate ph it old = Inr (None, Some (WithStack e8))"
    by (blast intro: translate_fails_in_fixup)
qed


theorem translate_first_error_witness:
  "translate failing_phases iteration1 ''; module''
     = Inr (None, Some (WithStack (OtherError ''undefined type'')))
   \<and> translate (failing_phases\<lparr>translateComdatDefs := Inr\<rparr>) iteration2 ''; module''
     = Inr (None, Some (WithStack (OtherError ''undefined type'')))
   \<and> translate example_phases iteration1 ''; module'' = Inr (Some example_assembled, None)
   \<and> translate failing_directive iteration1 ''; module''
     = Inr (None, Some (WithStack (OtherError ''invalid use-list order'')))
   \<and> translate failing_directiveBB iteration1 ''; module''
     = Inr (None, Some (WithStack (OtherError ''undefined block'')))
   \<and> translate failing_fixup iteration1 ''; module''
     = Inr (None, Some (WithStack (OtherError ''undefined block'')))"
proof -
  let ?old = "''; module''"
  let ?err = "WithStack (OtherError ''undefined type'')"
  let ?ph' = "failing_phases\<lparr>translateComdatDefs := Inr\<rparr>"
  have k: "1 < length (directive_phases failing_phases ?old)"
    by (simp add: directive_phases_def)
  have before: "run_phases (take 1 (directive_phases failing_phases ?old))
      (newGenerator failing_phases) = Inr example_generator"
    by (simp add: directive_phases_def withStack_def failing_phases_def example_phases_def)
  have fails: "(directive_phases failing_phases ?old ! 1) example_generator = Inl ?err"
    by (simp add: directive_phases_def withStack_def failing_phases_def example_phases_def)
  have same: "newGenerator ?ph' = newGenerator failing_phases
      \<and> take (Suc 1) (directive_phases ?ph' ?old)
        = take (Suc 1) (directive_phases failing_phases ?old)"
    by (simp add: directive_phases_def)
  note at_failing =
    translate_first_error [where ph = failing_phases and it = iteration1 and old = ?old,
      THEN conjunct2, THEN conjunct1]
  from at_failing k before fails
  have a: "translate failing_phases iteration1 ?old = Inr (None, Some ?err)"
    by blast
  from at_failing k before fails same
  have b: "translate ?ph' iteration2 ?old = Inr (None, Some ?err)"
    by blast
  have run: "run_phases (directive_phases example_phases ?old) (newGenerator example_phases)
      = Inr example_generator"
    by (simp add: directive_phases_def withStack_def example_phases_def)
      (simp add: example_generator_def)
  have assembled: "addDefsToModule iteration1 example_generator
      = Inr (example_generator\<lparr>m := example_assembled\<rparr>)"
    by (simp add: addDefsToModule_def iteration1_def example_generator_def example_module_def
        example_assembled_def)
  from translate_first_error [where ph = example_phases and it = iteration1 and old = ?old,
      THEN conjunct1]
  have c: "translate example_phases iteration1 ?old = Inr (Some example_assembled, None)"
    by (simp add: run assembled)
  let ?gd = "example_generator
          \<lparr>old_useListOrders := [''uselistorder i32 7, { 1, 0 }'', ''uselistorder i32 8, { 0 }'',
             ''uselistorder i32 9, { 1, 0 }'']\<rparr>"
  have d5: "run_phases (take 5 (directive_phases failing_directive ?old))
      (newGenerator failing_directive) = Inr ?gd"
    by (simp add: directive_phases_def withStack_def failing_directive_def example_phases_def)
  have di: "1 < length (old_useListOrders ?gd)" by simp
  have ds: "run_phases (map (useListOrder_step failing_directive) (take 1 (old_useListOrders ?gd)))
      ?gd = Inr (?gd\<lparr>m := (m ?gd)\<lparr>UseListOrders := UseListOrders (m ?gd)
         @ [UseListOrder ''uselistorder i32 7, { 1, 0 }'']\<rparr>\<rparr>)"
    by (simp add: useListOrder_step_def failing_directive_def example_phases_def)
  have df: "irUseListOrder failing_directive
      (?gd\<lparr>m := (m ?gd)\<lparr>UseListOrders := UseListOrders (m ?gd)
         @ [UseListOrder ''uselistorder i32 7, { 1, 0 }'']\<rparr>\<rparr>)
      (old_useListOrders ?gd ! 1) = Inl (OtherError ''invalid use-list order'')"
    by (simp add: failing_directive_def example_phases_def)
  from translate_first_error [where ph = failing_directive and it = iteration1 and old = ?old,
      THEN conjunct2, THEN conjunct2, THEN conjunct2, THEN conjunct2, THEN conjunct2,
      THEN conjunct2, THEN conjunct2, THEN conjunct1] d5 di ds df
  have d: "translate failing_directive iteration1 ?old
      = Inr (None, Some (WithStack (OtherError ''invalid use-list order'')))"
    by blast
  let ?gb = "example_generator
          \<lparr>old_useListOrderBBs := [''uselistorder_bb @f, %a, { 1, 0 }'',
             ''uselistorder_bb @f, %b, { 0 }'']\<rparr>"
  have b6: "run_phases (take 6 (directive_phases failing_directiveBB ?old))
      (newGenerator failing_directiveBB) = Inr ?gb"
    by (simp add: directive_phases_def withStack_def failing_directiveBB_def example_phases_def)
      (simp add: example_generator_def)
  have bi: "1 < length (old_useListOrderBBs ?gb)" by simp
  have bs: "run_phases (map (useListOrderBB_step failing_directiveBB)
      (take 1 (old_useListOrderBBs ?gb))) ?gb
      = Inr (?gb\<lparr>m := (m ?gb)\<lparr>UseListOrderBBs := UseListOrderBBs (m ?gb)
         @ [UseListOrderBB ''uselistorder_bb @f, %a, { 1, 0 }'']\<rparr>\<rparr>)"
    by (simp add: useListOrderBB_step_def failing_directiveBB_def example_phases_def)
  have bf: "irUseListOrderBB failing_directiveBB
      (?gb\<lparr>m := (m ?gb)\<lparr>UseListOrderBBs := UseListOrderBBs (m ?gb)
         @ [UseListOrderBB ''uselistorder_bb @f, %a, { 1, 0 }'']\<rparr>\<rparr>)
      (old_useListOrderBBs ?gb ! 1) = Inl (OtherError ''undefined block'')"
    by (simp add: failing_directiveBB_def example_phases_def)
  from translate_first_error [where ph = failing_directiveBB and it = iteration1 and old = ?old,
      THEN conjunct2, THEN conjunct2, THEN conjunct2, THEN conjunct2, THEN conjunct2,
      THEN conjunct2, THEN conjunct2, THEN conjunct2, THEN conjunct1] b6 bi bs bf
  have e: "translate failing_directiveBB iteration1 ?old
      = Inr (None, Some (WithStack (OtherError ''undefined block'')))"
    by blast
  let ?gf = "example_generator
          \<lparr>todo := [Constant ''blockaddress(@f, %gone)'' (Pointer (PointerType (IntType 8) 0)),
             Constant ''blockaddress(@f, %entry)'' (Pointer (PointerType (IntType 8) 0))]\<rparr>"
  have f7: "run_phases (take 7 (directive_phases failing_fixup ?old))
      (newGenerator failing_fixup) = Inr ?gf"
    by (simp add: directive_phases_def withStack_def failing_fixup_def example_phases_def)
      (simp add: example_generator_def)
  have fi: "0 < length (todo ?gf)" by simp
  have fs: "run_phases (map (blockAddress_step failing_fixup) (take 0 (todo ?gf))) ?gf = Inr ?gf"
    by simp
  have ff: "fixBlockAddressConst failing_fixup (todo ?gf ! 0) ?gf
      = Inl (OtherError ''undefined block'')"
    by (simp add: failing_fixup_def example_phases_def)
  from translate_first_error [where ph = failing_fixup and it = iteration1 and old = ?old,
      THEN conjunct2, THEN conjunct2, THEN conjunct2, THEN conjunct2, THEN conjunct2,
      THEN conjunct2, THEN conjunct2, THEN conjunct2, THEN conjunct2] f7 fi fs ff
  have f: "translate failing_fixup iteration1 ?old
      = Inr (None, Some (WithStack (OtherError ''undefined block'')))"
    by blast
  from a b c d e f show ?thesis by simp
qed


end
